theory Spec2Isabelle
  imports Complex_Main
begin

section \<open>Strings and Python's string primitives\<close>

text \<open>
  The source is Python 3: a \<open>str\<close> is a sequence of code points. The model uses
  \<^typ>\<open>string\<close>, whose characters are the code points below 256. In that range the
  decimal digits (the class \<open>\d\<close> of \<open>re\<close>, and what \<open>int()\<close> accepts)
  are exactly \<open>0\<close> to \<open>9\<close>. The white space removed by \<open>str.strip()\<close> is the set
  listed in \<open>py_isspace\<close>. \<open>int()\<close> skips a smaller set, listed in \<open>int_isspace\<close>:
  the four separators \<open>0x1C\<close> to \<open>0x1F\<close> are white space for \<open>str.strip()\<close> and
  are not skipped by \<open>int()\<close>, which raises \<open>ValueError\<close> on them.
\<close>

definition is_digit :: "char \<Rightarrow> bool" where
  "is_digit c = (c \<in> set ''0123456789'')"

definition is_hex :: "char \<Rightarrow> bool" where
  "is_hex c = (c \<in> set ''0123456789abcdefABCDEF'')"

definition py_isspace :: "char \<Rightarrow> bool" where
  "py_isspace c = (c \<in> set [CHR 0x09, CHR 0x0A, CHR 0x0B, CHR 0x0C, CHR 0x0D,
                              CHR 0x1C, CHR 0x1D, CHR 0x1E, CHR 0x1F, CHR 0x20,
                              CHR 0x85, CHR 0xA0])"

definition py_strip :: "string \<Rightarrow> string" where
  "py_strip s = rev (dropWhile py_isspace (rev (dropWhile py_isspace s)))"

definition startswith :: "string \<Rightarrow> string \<Rightarrow> bool" where
  "startswith s p = (take (length p) s = p)"

text \<open>\<open>s.split(sep)\<close> for a one-character separator: always at least one part.\<close>

fun split_on :: "char \<Rightarrow> string \<Rightarrow> string list" where
  "split_on sep [] = [[]]"
| "split_on sep (c # cs) =
     (if c = sep then [] # split_on sep cs
      else (case split_on sep cs of [] \<Rightarrow> [[c]] | p # ps \<Rightarrow> (c # p) # ps))"

definition digit_val :: "char \<Rightarrow> nat" where
  "digit_val c = of_char c - 48"

text \<open>The value of a digit string, most significant digit first.\<close>

definition dec_val :: "string \<Rightarrow> nat" where
  "dec_val s = foldl (\<lambda>acc c. 10 * acc + digit_val c) 0 s"

text \<open>
  The body of an integer literal as \<open>int()\<close> reads it after the sign: digits, where a
  single underscore may stand between two digits.
\<close>

fun int_body :: "string \<Rightarrow> bool" where
  "int_body [] = False"
| "int_body [c] = is_digit c"
| "int_body (c # d # r) =
     (is_digit c \<and> (if d = CHR ''_'' then int_body r else int_body (d # r)))"

text \<open>The white space that \<open>int()\<close> skips at both ends of its argument.\<close>

definition int_isspace :: "char \<Rightarrow> bool" where
  "int_isspace c = (c \<in> set [CHR 0x09, CHR 0x0A, CHR 0x0B, CHR 0x0C, CHR 0x0D, CHR 0x20,
                               CHR 0x85, CHR 0xA0])"

definition int_strip :: "string \<Rightarrow> string" where
  "int_strip s = rev (dropWhile int_isspace (rev (dropWhile int_isspace s)))"

text \<open>
  The interpreter refuses to convert a decimal literal of more than
  \<open>sys.get_int_max_str_digits()\<close> digits; the source does not change the default, 4300.
  Underscores, the sign and the surrounding white space do not count.
\<close>

definition int_max_str_digits :: nat where
  "int_max_str_digits = 4300"

text \<open>
  \<open>int(s)\<close> in base ten: surrounding white space is skipped, one sign is allowed, and a
  \<open>ValueError\<close> is the value \<open>None\<close>.
\<close>

definition py_int :: "string \<Rightarrow> int option" where
  "py_int s =
     (let t = int_strip s;
          neg = (case t of [] \<Rightarrow> False | c # r \<Rightarrow> c = CHR ''-'');
          body = (case t of [] \<Rightarrow> []
                  | c # r \<Rightarrow> if c = CHR ''-'' \<or> c = CHR ''+'' then r else t)
      in if int_body body \<and> length (filter is_digit body) \<le> int_max_str_digits
         then Some ((if neg then - 1 else 1) * int (dec_val (filter (\<lambda>c. c \<noteq> CHR ''_'') body)))
         else None)"

section \<open>Regular expressions as the source writes them\<close>

text \<open>
  The two patterns of \<open>_is_firmware\<close> use anchors, character classes, sequence and
  bounded repetition. A matcher state is the pair of "still at the start of the string"
  and the rest of the string; \<open>rmatch r st\<close> lists every state in which a match of
  \<open>r\<close> started at \<open>st\<close> can end. \<open>$\<close> succeeds at the end and before a final
  newline, as in \<open>re\<close> without flags.
\<close>

datatype rex = Bol | Eol | Cls "char \<Rightarrow> bool" | Seq rex rex | Rpt nat nat rex

type_synonym mstate = "bool \<times> string"

fun rpt :: "(mstate \<Rightarrow> mstate list) \<Rightarrow> nat \<Rightarrow> nat \<Rightarrow> mstate \<Rightarrow> mstate list" where
  "rpt f lo 0 st = (if lo = 0 then [st] else [])"
| "rpt f lo (Suc hi) st =
     (if lo = 0 then [st] else []) @ concat (map (rpt f (lo - 1) hi) (f st))"

primrec rmatch :: "rex \<Rightarrow> mstate \<Rightarrow> mstate list" where
  "rmatch Bol st = (if fst st then [st] else [])"
| "rmatch Eol st = (if snd st = [] \<or> snd st = [CHR 0x0A] then [st] else [])"
| "rmatch (Cls p) st =
     (case snd st of [] \<Rightarrow> [] | c # cs \<Rightarrow> if p c then [(False, cs)] else [])"
| "rmatch (Seq r1 r2) st = concat (map (rmatch r2) (rmatch r1 st))"
| "rmatch (Rpt lo hi r) st = rpt (rmatch r) lo hi st"

text \<open>\<open>re.fullmatch\<close>: some match starting at the start ends at the end of the string.\<close>

definition re_fullmatch :: "rex \<Rightarrow> string \<Rightarrow> bool" where
  "re_fullmatch r s = list_ex (\<lambda>st. snd st = []) (rmatch r (True, s))"

definition lit :: "char \<Rightarrow> rex" where
  "lit c = Cls (\<lambda>x. x = c)"

text \<open>\<^verbatim>\<open>^\d{1,2}\.\d{1,2}\.\d{1,2}\.\d{1,2}$\<close>\<close>

definition version_re :: rex where
  "version_re =
     Seq Bol (Seq (Rpt 1 2 (Cls is_digit)) (Seq (lit CHR ''.'')
             (Seq (Rpt 1 2 (Cls is_digit)) (Seq (lit CHR ''.'')
             (Seq (Rpt 1 2 (Cls is_digit)) (Seq (lit CHR ''.'')
             (Seq (Rpt 1 2 (Cls is_digit)) Eol)))))))"

text \<open>\<^verbatim>\<open>^\d{8}-[0-9a-fA-F]{7,8}$\<close>\<close>

definition nightly_re :: rex where
  "nightly_re =
     Seq Bol (Seq (Rpt 8 8 (Cls is_digit)) (Seq (lit CHR ''-'')
             (Seq (Rpt 7 8 (Cls is_hex)) Eol)))"

section \<open>Firmware classification helpers\<close>

text \<open>\<open>version_to_int\<close>: \<open>None\<close> for the empty string and when a part is no integer.\<close>

definition version_to_int :: "string \<Rightarrow> int option" where
  "version_to_int version =
     (if version = [] then None
      else (case those (map py_int (split_on CHR ''.'' version)) of
              None \<Rightarrow> None
            | Some parts \<Rightarrow>
                (let ps = parts @ replicate (4 - length parts) 0
                 in Some (ps ! 0 * 1000000 + ps ! 1 * 10000 + ps ! 2 * 100 + ps ! 3))))"

definition nightly_to_int :: "string \<Rightarrow> int option" where
  "nightly_to_int nightly =
     (if nightly = [] then None
      else (case split_on CHR ''-'' nightly of
              [] \<Rightarrow> None
            | p # ps \<Rightarrow> py_int p))"

definition below_cutoff :: "int option \<Rightarrow> int \<Rightarrow> bool" where
  "below_cutoff v cutoff = (case v of None \<Rightarrow> False | Some n \<Rightarrow> n < cutoff)"

definition at_least_cutoff :: "int option \<Rightarrow> int \<Rightarrow> bool" where
  "at_least_cutoff v cutoff = (case v of None \<Rightarrow> False | Some n \<Rightarrow> cutoff \<le> n)"

text \<open>\<open>_is_firmware(version, fw_type, version_cutoff, nightly_cutoff)\<close>.\<close>

definition is_firmware :: "string \<Rightarrow> string \<Rightarrow> int \<Rightarrow> int \<Rightarrow> bool" where
  "is_firmware version0 fw_type version_cutoff nightly_cutoff =
     (if version0 = [] then False
      else
        (let version = py_strip version0 in
         if fw_type = ''babel'' then startswith version ''babel-''
         else if fw_type = ''olsr'' then
           (if re_fullmatch version_re version
              then below_cutoff (version_to_int version) version_cutoff
            else if re_fullmatch nightly_re version
              then below_cutoff (nightly_to_int version) nightly_cutoff
            else False)
         else if fw_type = ''combo'' then
           (if startswith version ''babel-'' then False
            else if re_fullmatch version_re version
              then at_least_cutoff (version_to_int version) version_cutoff
            else if re_fullmatch nightly_re version
              then at_least_cutoff (nightly_to_int version) nightly_cutoff
            else False)
         else False))"


section \<open>The classifier in the words of the specification\<close>

text \<open>
  The specification speaks of a dotted quad \<open>a.b.c.d\<close> with components of one or two
  digits, ordered as \<open>a\<cdot>10\<^sup>6 + b\<cdot>10\<^sup>4 + c\<cdot>10\<^sup>2 + d\<close>, of a nightly
  \<open>YYYYMMDD-<hex7-8>\<close>, ordered by its date prefix, and of \<open>classify\<close>. These
  definitions follow those words; they are compared with the source's functions below.
\<close>

definition digits12 :: "string \<Rightarrow> bool" where
  "digits12 s = (list_all is_digit s \<and> 1 \<le> length s \<and> length s \<le> 2)"

definition dotted_quad :: "string \<Rightarrow> bool" where
  "dotted_quad s =
     (case split_on CHR ''.'' s of
        [a, b, c, d] \<Rightarrow> digits12 a \<and> digits12 b \<and> digits12 c \<and> digits12 d
      | _ \<Rightarrow> False)"

definition quad_order :: "string \<Rightarrow> int" where
  "quad_order s =
     (case split_on CHR ''.'' s of
        [a, b, c, d] \<Rightarrow>
          int (dec_val a) * 1000000 + int (dec_val b) * 10000 + int (dec_val c) * 100 + int (dec_val d)
      | _ \<Rightarrow> 0)"

definition nightly_id :: "string \<Rightarrow> bool" where
  "nightly_id s =
     (case split_on CHR ''-'' s of
        [d, h] \<Rightarrow> list_all is_digit d \<and> length d = 8 \<and>
                  list_all is_hex h \<and> 7 \<le> length h \<and> length h \<le> 8
      | _ \<Rightarrow> False)"

definition nightly_date :: "string \<Rightarrow> int" where
  "nightly_date s = (case split_on CHR ''-'' s of [d, h] \<Rightarrow> int (dec_val d) | _ \<Rightarrow> 0)"

definition classify_spec :: "string \<Rightarrow> string \<Rightarrow> int \<Rightarrow> int \<Rightarrow> bool" where
  "classify_spec version kind version_cutoff nightly_cutoff =
     (if kind = ''babel'' then startswith version ''babel-''
      else if kind = ''olsr'' then
        (dotted_quad version \<and> quad_order version < version_cutoff) \<or>
        (nightly_id version \<and> nightly_date version < nightly_cutoff)
      else if kind = ''combo'' then
        (\<not> startswith version ''babel-'') \<and>
        ((dotted_quad version \<and> version_cutoff \<le> quad_order version) \<or>
         (nightly_id version \<and> nightly_cutoff \<le> nightly_date version))
      else False)"

section \<open>JSON documents and Python's dynamic values\<close>

text \<open>
  A decoded JSON document: \<open>None\<close>, booleans, numbers, strings, lists and dicts. A dict
  is the list of its items in iteration order, with distinct keys. Numbers are reals:
  \<open>1\<close>, \<open>1.0\<close> and \<open>True\<close> are equal in Python, and the model's comparisons say so.
\<close>

datatype json = JNull | JBool bool | JNum real | JStr string | JList "json list"
  | JDict "(string \<times> json) list"

datatype py_error = AttributeError | TypeError | ValueError

text \<open>Truth value testing: \<open>if x\<close>.\<close>

fun truthy :: "json \<Rightarrow> bool" where
  "truthy JNull = False"
| "truthy (JBool b) = b"
| "truthy (JNum n) = (n \<noteq> 0)"
| "truthy (JStr s) = (s \<noteq> [])"
| "truthy (JList xs) = (xs \<noteq> [])"
| "truthy (JDict kvs) = (kvs \<noteq> [])"

text \<open>\<open>d.get(k, default)\<close> on the items of a dict.\<close>

definition dict_get :: "(string \<times> json) list \<Rightarrow> string \<Rightarrow> json \<Rightarrow> json" where
  "dict_get d k dflt = (case map_of d k of None \<Rightarrow> dflt | Some v \<Rightarrow> v)"

text \<open>\<open>x.startswith(p)\<close>: only a string has the method.\<close>

fun j_startswith :: "json \<Rightarrow> string \<Rightarrow> py_error + bool" where
  "j_startswith (JStr s) p = Inr (startswith s p)"
| "j_startswith x p = Inl AttributeError"

section \<open>The sysinfo parser: the interfaces array\<close>

text \<open>
  \<open>NodePoller._parse_sysinfo\<close> walks the items of the document. Only the branch for the
  key \<open>interfaces\<close> assigns \<open>wlan_ip\<close>, \<open>lan_ip\<close> and \<open>wifi_mac_address\<close>; the record
  below holds these three fields of \<open>NodeInfo\<close>.
\<close>

record iface_fields =
  wlan_ip :: json
  lan_ip :: json
  wifi_mac_address :: json

text \<open>\<open>ip_addr and ip_addr != 'none'\<close>\<close>

definition usable_ip :: "json \<Rightarrow> bool" where
  "usable_ip ip_addr = (truthy ip_addr \<and> ip_addr \<noteq> JStr ''none'')"

definition mesh_iface_names :: "json list" where
  "mesh_iface_names = [JStr ''eth1.3975'', JStr ''eth0.3975'', JStr ''br-nomesh'', JStr ''br0'']"

text \<open>The body of \<open>for iface in value\<close>.\<close>

definition parse_iface :: "json \<Rightarrow> iface_fields \<Rightarrow> py_error + iface_fields" where
  "parse_iface iface node_info =
     (case iface of
        JDict d \<Rightarrow>
          (let name = dict_get d ''name'' (JStr '''');
               ip_addr = dict_get d ''ip'' (JStr '''')
           in if name = JStr ''wlan0'' \<or> name = JStr ''wlan1'' then
                (let n1 = (case map_of d ''mac'' of
                             Some mac \<Rightarrow> node_info\<lparr>wifi_mac_address := mac\<rparr>
                           | None \<Rightarrow> node_info)
                 in Inr (if usable_ip ip_addr then n1\<lparr>wlan_ip := ip_addr\<rparr> else n1))
              else if name = JStr ''br-lan'' \<and> usable_ip ip_addr then
                Inr (node_info\<lparr>lan_ip := ip_addr\<rparr>)
              else if name \<in> set mesh_iface_names then
                (if usable_ip ip_addr then
                   (case j_startswith ip_addr ''10.'' of
                      Inl e \<Rightarrow> Inl e
                    | Inr ten \<Rightarrow> Inr (if ten then node_info\<lparr>wlan_ip := ip_addr\<rparr> else node_info))
                 else Inr node_info)
              else Inr node_info)
      | _ \<Rightarrow> Inr node_info)"

fun parse_interfaces :: "json list \<Rightarrow> iface_fields \<Rightarrow> py_error + iface_fields" where
  "parse_interfaces [] node_info = Inr node_info"
| "parse_interfaces (iface # rest) node_info =
     (case parse_iface iface node_info of
        Inl e \<Rightarrow> Inl e
      | Inr n \<Rightarrow> parse_interfaces rest n)"

text \<open>
  The fields as \<open>_parse_sysinfo(data, ip)\<close> leaves them: the defaults of \<open>NodeInfo\<close>
  with \<open>wlan_ip = ip\<close>, changed by the interfaces branch when the document has a list
  under \<open>interfaces\<close>.
\<close>

definition parse_sysinfo_interfaces ::
    "(string \<times> json) list \<Rightarrow> string \<Rightarrow> py_error + iface_fields" where
  "parse_sysinfo_interfaces data ip =
     (let node_info = \<lparr>wlan_ip = JStr ip, lan_ip = JStr ''Not Available'',
                       wifi_mac_address = JStr ''''\<rparr>
      in case map_of data ''interfaces'' of
           Some (JList v) \<Rightarrow> parse_interfaces v node_info
         | _ \<Rightarrow> Inr node_info)"

text \<open>The selection rule, stated on the array.\<close>

definition iface_name :: "json \<Rightarrow> json" where
  "iface_name iface = (case iface of JDict d \<Rightarrow> dict_get d ''name'' (JStr '''') | _ \<Rightarrow> JNull)"

definition iface_ip :: "json \<Rightarrow> json" where
  "iface_ip iface = (case iface of JDict d \<Rightarrow> dict_get d ''ip'' (JStr '''') | _ \<Rightarrow> JNull)"

definition iface_mac :: "json \<Rightarrow> json option" where
  "iface_mac iface = (case iface of JDict d \<Rightarrow> map_of d ''mac'' | _ \<Rightarrow> None)"

definition is_wlan :: "json \<Rightarrow> bool" where
  "is_wlan iface = (iface_name iface = JStr ''wlan0'' \<or> iface_name iface = JStr ''wlan1'')"

definition ip_text :: "json \<Rightarrow> string" where
  "ip_text ip_addr = (case ip_addr of JStr s \<Rightarrow> s | _ \<Rightarrow> [])"

text \<open>An interface that supplies \<open>wlan_ip\<close>, \<open>lan_ip\<close>, the MAC.\<close>

definition wlan_ip_source :: "json \<Rightarrow> bool" where
  "wlan_ip_source iface =
     (usable_ip (iface_ip iface) \<and>
      (is_wlan iface \<or>
       (iface_name iface \<in> set mesh_iface_names \<and> startswith (ip_text (iface_ip iface)) ''10.'')))"

definition lan_ip_source :: "json \<Rightarrow> bool" where
  "lan_ip_source iface = (iface_name iface = JStr ''br-lan'' \<and> usable_ip (iface_ip iface))"

definition wlan_mac :: "json \<Rightarrow> json option" where
  "wlan_mac iface = (if is_wlan iface then iface_mac iface else None)"

definition sysinfo_example :: "(string \<times> json) list" where
  "sysinfo_example =
     [(''node'', JStr ''N0CALL-1''),
      (''interfaces'', JList
        [JDict [(''name'', JStr ''wlan0''), (''mac'', JStr ''AA:BB:CC:DD:EE:FF''),
                (''ip'', JStr ''10.1.1.1'')],
         JDict [(''name'', JStr ''br-lan''), (''ip'', JStr ''10.5.5.1'')],
         JDict [(''name'', JStr ''eth0''), (''ip'', JStr ''none'')],
         JDict [(''name'', JStr ''br0''), (''ip'', JStr ''10.2.2.2'')]])]"

text \<open>
  An interface on which the loop body does not raise: one of the four mesh names with a
  usable address that is no string has no \<open>startswith\<close>.
\<close>

definition iface_ok :: "json \<Rightarrow> bool" where
  "iface_ok iface =
     (if iface_name iface \<in> set mesh_iface_names \<and> usable_ip (iface_ip iface)
      then (case iface_ip iface of JStr s \<Rightarrow> True | _ \<Rightarrow> False) else True)"

fun last_or :: "'a \<Rightarrow> 'a list \<Rightarrow> 'a" where
  "last_or d [] = d"
| "last_or d (x # xs) = last_or x xs"

section \<open>Floating point numbers\<close>

text \<open>
  Python floats are modelled as reals: the arithmetic is exact. \<open>round(x, n)\<close> rounds
  to \<open>n\<close> decimal places, a tie to the even neighbour.
\<close>

definition py_round :: "real \<Rightarrow> nat \<Rightarrow> real" where
  "py_round x ndigits =
     (let y = x * 10 ^ ndigits; f = \<lfloor>y\<rfloor>; r = y - of_int f
      in of_int (if r < 1 / 2 then f else if 1 / 2 < r then f + 1
                 else if even f then f else f + 1) / 10 ^ ndigits)"

section \<open>The polling daemon: state and statistics\<close>

record stats =
  numParallelThreads :: int
  nodeTotal :: int
  garbageReturned :: int
  highestHops :: int
  totalPolled :: int
  nodesWithErrors :: int
  noLocation :: int
  mappableNodes :: int
  mappableLinks :: int
  pollingTimeSec :: real
  babelNodes :: int
  olsrNodes :: int
  comboNodes :: int
  minResponseTimeMs :: real
  maxResponseTimeMs :: real

text \<open>A link map: the items of a dict from destination address to link record.\<close>

type_synonym link_map = "(json \<times> json) list"

text \<open>The attributes of \<open>MeshPollingDaemon\<close> that a cycle reads or assigns.\<close>

record daemon =
  nodelistNode :: string
  parallel_threads :: int
  base_parallel_threads :: int
  poller_cycle_minutes :: int
  poller_cycle_seconds :: int
  cycle_count :: nat
  nodelistNode_ip :: json
  localnode_ip :: json
  initial_link_map :: "(json \<times> link_map) list"
  stats :: stats

text \<open>The settings \<open>__init__\<close> reads, after their fallbacks.\<close>

record config =
  cfg_nodelistNode :: string
  cfg_numParallelThreads :: int
  cfg_pollerCycleTime :: int

definition daemon_init :: "config \<Rightarrow> daemon" where
  "daemon_init cfg =
     \<lparr>nodelistNode = cfg_nodelistNode cfg,
      parallel_threads = cfg_numParallelThreads cfg,
      base_parallel_threads = cfg_numParallelThreads cfg,
      poller_cycle_minutes = cfg_pollerCycleTime cfg,
      poller_cycle_seconds = max (cfg_pollerCycleTime cfg * 60) 1,
      cycle_count = 0,
      nodelistNode_ip = JNull,
      localnode_ip = JNull,
      initial_link_map = [],
      stats = \<lparr>numParallelThreads = cfg_numParallelThreads cfg, nodeTotal = 0,
                garbageReturned = 0, highestHops = 0, totalPolled = 0, nodesWithErrors = 0,
                noLocation = 0, mappableNodes = 0, mappableLinks = 0, pollingTimeSec = 0,
                babelNodes = 0, olsrNodes = 0, comboNodes = 0, minResponseTimeMs = 0,
                maxResponseTimeMs = 0\<rparr>\<rparr>"

section \<open>Dynamic values as dict keys and in loops\<close>

text \<open>Lists and dicts cannot be hashed: using one as a key raises \<open>TypeError\<close>.\<close>

fun hashable :: "json \<Rightarrow> bool" where
  "hashable (JList xs) = False"
| "hashable (JDict kvs) = False"
| "hashable x = True"

text \<open>
  \<open>==\<close> on decoded values: a boolean equals the number \<open>0\<close> or \<open>1\<close>. (Lists and dicts
  are compared as they are written.)
\<close>

definition key_norm :: "json \<Rightarrow> json" where
  "key_norm x = (case x of JBool b \<Rightarrow> JNum (if b then 1 else 0) | _ \<Rightarrow> x)"

definition py_eq :: "json \<Rightarrow> json \<Rightarrow> bool" where
  "py_eq a b = (key_norm a = key_norm b)"

fun dict_lookup :: "json \<Rightarrow> (json \<times> 'v) list \<Rightarrow> 'v option" where
  "dict_lookup k [] = None"
| "dict_lookup k ((k', v) # rest) = (if py_eq k' k then Some v else dict_lookup k rest)"

text \<open>\<open>d[k] = v\<close>: an existing key keeps its place, a new key goes last.\<close>

fun dict_store :: "json \<Rightarrow> 'v \<Rightarrow> (json \<times> 'v) list \<Rightarrow> (json \<times> 'v) list" where
  "dict_store k v [] = [(k, v)]"
| "dict_store k v ((k', v') # rest) =
     (if py_eq k' k then (k', v) # rest else (k', v') # dict_store k v rest)"

text \<open>\<open>for x in value\<close>: a string yields its characters, a dict its keys.\<close>

fun py_iter :: "json \<Rightarrow> py_error + json list" where
  "py_iter (JList xs) = Inr xs"
| "py_iter (JStr s) = Inr (map (\<lambda>c. JStr [c]) s)"
| "py_iter (JDict kvs) = Inr (map (\<lambda>kv. JStr (fst kv)) kvs)"
| "py_iter x = Inl TypeError"

section \<open>Topology discovery\<close>

record topology =
  topo_nodes :: json
  topo_links :: "(json \<times> link_map) list"

text \<open>The first loop over the seed's interfaces: a \<open>br-nomesh\<close> address in \<open>10.\<close>.\<close>

fun find_br_nomesh :: "json list \<Rightarrow> py_error + json" where
  "find_br_nomesh [] = Inr JNull"
| "find_br_nomesh (iface # rest) =
     (case iface of
        JDict d \<Rightarrow>
          if dict_get d ''name'' JNull = JStr ''br-nomesh'' then
            (let ip_candidate = dict_get d ''ip'' JNull in
             if truthy ip_candidate then
               (case j_startswith ip_candidate ''10.'' of
                  Inl e \<Rightarrow> Inl e
                | Inr ten \<Rightarrow> if ten then Inr ip_candidate else find_br_nomesh rest)
             else find_br_nomesh rest)
          else find_br_nomesh rest
      | _ \<Rightarrow> find_br_nomesh rest)"

text \<open>The second loop: the last address seen, stopping at the first one in \<open>10.\<close>.\<close>

fun scan_iface_ips :: "json list \<Rightarrow> json \<Rightarrow> py_error + json" where
  "scan_iface_ips [] found = Inr found"
| "scan_iface_ips (iface # rest) found =
     (case iface of
        JDict d \<Rightarrow>
          (let ip_val = dict_get d ''ip'' JNull in
           if truthy ip_val \<and> ip_val \<noteq> JStr ''none'' \<and> ip_val \<noteq> JStr ''None'' then
             (case j_startswith ip_val ''10.'' of
                Inl e \<Rightarrow> Inl e
              | Inr ten \<Rightarrow> if ten then Inr ip_val else scan_iface_ips rest ip_val)
           else scan_iface_ips rest found)
      | _ \<Rightarrow> scan_iface_ips rest found)"

definition resolve_nodelist_ip :: "json \<Rightarrow> py_error + json" where
  "resolve_nodelist_ip nodes_payload =
     (case nodes_payload of
        JDict p \<Rightarrow>
          (let v = dict_get p ''interfaces'' (JList []);
               interfaces = (if truthy v then v else JList [])
           in case py_iter interfaces of
                Inl e \<Rightarrow> Inl e
              | Inr ifs \<Rightarrow>
                  (case find_br_nomesh ifs of
                     Inl e \<Rightarrow> Inl e
                   | Inr found \<Rightarrow> if truthy found then Inr found else scan_iface_ips ifs JNull))
      | _ \<Rightarrow> Inr JNull)"

text \<open>\<open>nodes_payload.get('nodes', []) or []\<close>, for a payload that is a dict.\<close>

definition payload_nodes :: "json \<Rightarrow> json" where
  "payload_nodes nodes_payload =
     (case nodes_payload of
        JDict p \<Rightarrow> (let v = dict_get p ''nodes'' (JList []) in if truthy v then v else JList [])
      | _ \<Rightarrow> JList [])"

text \<open>\<open>any(n.get('ip') == x for n in nodes_list)\<close>: only a dict has \<open>get\<close>.\<close>

fun any_ip_is :: "json \<Rightarrow> json list \<Rightarrow> py_error + bool" where
  "any_ip_is x [] = Inr False"
| "any_ip_is x (n # rest) =
     (case n of
        JDict d \<Rightarrow> if py_eq (dict_get d ''ip'' JNull) x then Inr True else any_ip_is x rest
      | _ \<Rightarrow> Inl AttributeError)"

text \<open>
  "Ensure localnode is present in node list". The branch that appends the seed reads
  \<open>self.localnode\<close>, an attribute that no line of the class assigns: evaluating the
  arguments of \<open>append\<close> raises \<open>AttributeError\<close>.
\<close>

definition ensure_localnode :: "json \<Rightarrow> json \<Rightarrow> py_error + unit" where
  "ensure_localnode lip nodes_list =
     (if truthy lip then
        (case py_iter nodes_list of
           Inl e \<Rightarrow> Inl e
         | Inr ns \<Rightarrow>
             (case any_ip_is lip ns of
                Inl e \<Rightarrow> Inl e
              | Inr already_present \<Rightarrow> if already_present then Inr () else Inl AttributeError))
      else Inr ())"

text \<open>
  \<open>_fetch_topology\<close>. Its arguments are the decoded reply to \<open>?nodes=1\<close> (\<open>JNull\<close> when
  the fetch failed) and the link map that lines 1045 to 1099 build from the LQM trackers
  or the \<open>link_info\<close> reply; the result is the value returned or the exception raised,
  with the daemon as the call leaves it.
\<close>

definition fetch_topology ::
    "json \<Rightarrow> link_map \<Rightarrow> daemon \<Rightarrow> (py_error + topology option) \<times> daemon" where
  "fetch_topology nodes_payload link_map d =
     (let nodes_list = payload_nodes nodes_payload in
      case resolve_nodelist_ip nodes_payload of
        Inl e \<Rightarrow> (Inl e, d)
      | Inr found \<Rightarrow>
          (let d1 = d\<lparr>nodelistNode_ip := (if truthy found then found else JStr (nodelistNode d))\<rparr>;
               wrap = (truthy (nodelistNode_ip d1) \<and> link_map \<noteq> [])
           in if wrap \<and> \<not> hashable (localnode_ip d1) then (Inl TypeError, d1)
              else
                (let link_map_by_source = (if wrap then [(localnode_ip d1, link_map)] else [])
                 in case ensure_localnode (localnode_ip d1) nodes_list of
                      Inl e \<Rightarrow> (Inl e, d1)
                    | Inr u \<Rightarrow>
                        if \<not> truthy nodes_list then (Inr None, d1)
                        else (Inr (Some \<lparr>topo_nodes = nodes_list,
                                          topo_links = link_map_by_source\<rparr>),
                              d1\<lparr>initial_link_map := link_map_by_source\<rparr>))))"

section \<open>The candidate set\<close>

record device =
  hopsAway :: "int option"
  dev_link_info :: link_map
  dev_lat :: json
  dev_lon :: json
  dev_name :: json
  dev_is_localnode :: json

text \<open>
  The loop of \<open>_build_node_list\<close>, with the dict \<open>nodes\<close>, \<open>max_hops\<close> and
  \<open>self.localnode_ip\<close> as they stand.
\<close>

fun build_node_loop ::
    "json list \<Rightarrow> (json \<times> link_map) list \<Rightarrow> (json \<times> device) list \<Rightarrow> int \<Rightarrow> json \<Rightarrow>
       (py_error + (json \<times> device) list \<times> int) \<times> json" where
  "build_node_loop [] links nodes max_hops lip = (Inr (nodes, max_hops), lip)"
| "build_node_loop (node # rest) links nodes max_hops lip =
     (case node of
        JDict n \<Rightarrow>
          (let ip = dict_get n ''ip'' JNull in
           if \<not> truthy ip then build_node_loop rest links nodes max_hops lip
           else
             (let hops = 1;
                  max_hops1 = (if hops > max_hops then hops else max_hops);
                  lip1 = (if truthy (dict_get n ''is_localnode'' JNull) then ip else lip)
              in if \<not> hashable ip then (Inl TypeError, lip1)
                 else build_node_loop rest links
                        (dict_store ip
                           \<lparr>hopsAway = Some hops,
                            dev_link_info = (case dict_lookup ip links of
                                               None \<Rightarrow> [] | Some l \<Rightarrow> l),
                            dev_lat = dict_get n ''lat'' JNull,
                            dev_lon = dict_get n ''lon'' JNull,
                            dev_name = dict_get n ''name'' JNull,
                            dev_is_localnode = dict_get n ''is_localnode'' (JBool False)\<rparr>
                           nodes)
                        max_hops1 lip1))
      | _ \<Rightarrow> build_node_loop rest links nodes max_hops lip)"

definition build_node_list ::
    "topology \<Rightarrow> daemon \<Rightarrow> (py_error + (json \<times> device) list) \<times> daemon" where
  "build_node_list topo_bundle d =
     (case py_iter (topo_nodes topo_bundle) of
        Inl e \<Rightarrow> (Inl e, d)
      | Inr node_entries \<Rightarrow>
          (case build_node_loop node_entries (topo_links topo_bundle) [] 0 (localnode_ip d) of
             (Inl e, lip) \<Rightarrow> (Inl e, d\<lparr>localnode_ip := lip\<rparr>)
           | (Inr (nodes, max_hops), lip) \<Rightarrow>
               (Inr nodes,
                d\<lparr>localnode_ip := lip, stats := (stats d)\<lparr>highestHops := max_hops\<rparr>\<rparr>)))"

section \<open>The poll fan-out\<close>

record poll_task =
  task_ip :: json
  task_hops :: int
  task_delay :: real

definition pollable :: "json \<times> device \<Rightarrow> bool" where
  "pollable entry = (hopsAway (snd entry) \<noteq> None)"

definition inter_poll_delay :: "daemon \<Rightarrow> nat \<Rightarrow> real" where
  "inter_poll_delay d total_nodes =
     (if cycle_count d > 1 \<and> total_nodes > 0
      then real_of_int (poller_cycle_seconds d) / real total_nodes else 0)"

text \<open>
  The tasks \<open>_poll_all_nodes\<close> creates, in order: one for every candidate with known
  hops, with the start delay it is given.
\<close>

definition poll_tasks :: "daemon \<Rightarrow> (json \<times> device) list \<Rightarrow> poll_task list" where
  "poll_tasks d node_devices =
     List.map_filter
       (\<lambda>(idx, ip, info).
          case hopsAway info of
            None \<Rightarrow> None
          | Some hops \<Rightarrow>
              Some \<lparr>task_ip = ip, task_hops = hops,
                    task_delay = (if cycle_count d > 1
                                  then inter_poll_delay d (length node_devices) * real idx
                                  else 0)\<rparr>)
       (enumerate 0 node_devices)"

section \<open>Statistics and their persistence\<close>

text \<open>What \<open>_calculate_stats\<close> reads of a polled \<open>NodeInfo\<close>.\<close>

record polled_node =
  pn_lat :: real
  pn_lon :: real
  pn_response_time_ms :: real

definition calculate_stats ::
    "polled_node list \<Rightarrow> (json \<times> device) list \<Rightarrow> stats \<Rightarrow> stats" where
  "calculate_stats nodes node_devices s =
     (let n = int (length nodes);
          garbage = (if node_devices \<noteq> []
                     then int (length (filter pollable node_devices)) - n
                     else nodeTotal s - n);
          no_location = int (length (filter (\<lambda>p. pn_lat p = 0 \<or> pn_lon p = 0) nodes));
          s1 = s\<lparr>totalPolled := n, garbageReturned := garbage, noLocation := no_location,
                 mappableNodes := n - no_location\<rparr>
      in case filter (\<lambda>t. 0 < t) (map pn_response_time_ms nodes) of
           [] \<Rightarrow> s1
         | t # ts \<Rightarrow> s1\<lparr>minResponseTimeMs := py_round (fold min ts t) 2,
                         maxResponseTimeMs := py_round (fold max ts t) 2\<rparr>)"

text \<open>
  A row of the table \<open>map_info\<close>, as both \<open>CREATE TABLE\<close> statements declare it: the
  key \<open>id\<close> is the key of the map below.
\<close>

record map_info_row =
  row_numParallelThreads :: int
  row_nodeTotal :: int
  row_garbageReturned :: int
  row_highestHops :: int
  row_totalPolled :: int
  row_noLocation :: int
  row_mappableNodes :: int
  row_mappableLinks :: int
  row_pollingTimeSec :: real
  row_lastPollingRun :: real

type_synonym map_info = "string \<rightharpoonup> map_info_row"

text \<open>\<open>save_polling_stats\<close>: \<open>INSERT ... ON DUPLICATE KEY UPDATE\<close> at the clock's \<open>now\<close>.\<close>

definition save_polling_stats :: "stats \<Rightarrow> real \<Rightarrow> map_info \<Rightarrow> map_info" where
  "save_polling_stats s now tbl =
     tbl(''POLLINFO'' \<mapsto>
       \<lparr>row_numParallelThreads = numParallelThreads s, row_nodeTotal = nodeTotal s,
        row_garbageReturned = garbageReturned s, row_highestHops = highestHops s,
        row_totalPolled = totalPolled s, row_noLocation = noLocation s,
        row_mappableNodes = mappableNodes s, row_mappableLinks = mappableLinks s,
        row_pollingTimeSec = pollingTimeSec s, row_lastPollingRun = now\<rparr>)"

section \<open>One polling cycle\<close>

text \<open>
  What a cycle gets from outside the process: the seed's replies, the outcome of the
  polls, of the enrichment pass and of the artifact generation, and the clock.
  \<open>env_link_count\<close> and \<open>env_protocol_counts\<close> are \<open>None\<close> when the pass raised
  (both passes catch every exception and leave the statistics as they were).
\<close>

record cycle_env =
  env_nodes_payload :: json
  env_link_map :: link_map
  env_polled :: "polled_node list"
  env_task_errors :: nat
  env_link_count :: "int option"
  env_protocol_counts :: "(int \<times> int \<times> int) option"
  env_elapsed :: real
  env_now :: real

datatype event =
    EvFetchTopology
  | EvBuildNodeList
  | EvUpdateTopologyInfo
  | EvPollAllNodes int "(json \<times> device) list" "poll_task list"
  | EvCalculateStats
  | EvBuildLinkTopology
  | EvGenerateDataFiles
  | EvSavePollingStats

text \<open>
  How a cycle ends: it runs to its last statement, it returns early for want of a
  topology, an exception leaves it, or it never ends because the fan-out waits for ever.
\<close>

datatype cycle_outcome = Completed | NoTopology | Raised py_error | Blocked

record cycle_result =
  res_outcome :: cycle_outcome
  res_daemon :: daemon
  res_map_info :: map_info
  res_trace :: "event list"

text \<open>
  Steps 4 to 10 of \<open>_poll_cycle\<close>, once the candidate set is built, for a daemon whose
  shutdown event is not set. \<open>_poll_all_nodes\<close> begins with
  \<open>asyncio.Semaphore(self.parallel_threads)\<close>, which raises \<open>ValueError\<close> for a negative
  value. A semaphore created with 0 is never released, so no task gets past
  \<open>async with semaphore\<close>: when there is at least one task, \<open>asyncio.wait\<close> never
  returns, and the cycle neither computes nor saves anything more (\<open>Blocked\<close>). When
  there is no task the waiting loop is not entered and the cycle goes on.
\<close>

definition poll_and_save ::
    "cycle_env \<Rightarrow> (json \<times> device) list \<Rightarrow> daemon \<Rightarrow> map_info \<Rightarrow> cycle_result" where
  "poll_and_save env node_devices d tbl =
     (let d1 = d\<lparr>parallel_threads :=
                   (if cycle_count d = 1 then 600 else base_parallel_threads d)\<rparr>;
          before = [EvFetchTopology, EvBuildNodeList, EvUpdateTopologyInfo]
      in if parallel_threads d1 < 0
         then \<lparr>res_outcome = Raised ValueError, res_daemon = d1, res_map_info = tbl,
                res_trace = before\<rparr>
         else
           (let tasks = poll_tasks d1 node_devices in
            if parallel_threads d1 = 0 \<and> tasks \<noteq> []
            then \<lparr>res_outcome = Blocked, res_daemon = d1, res_map_info = tbl,
                   res_trace = before @
                     [EvPollAllNodes (parallel_threads d1) node_devices tasks]\<rparr>
            else
              (let s1 = (stats d1)\<lparr>nodesWithErrors :=
                                      nodesWithErrors (stats d1) + int (env_task_errors env)\<rparr>;
                   s2 = calculate_stats (env_polled env) node_devices s1;
                   s3 = (case env_link_count env of
                           None \<Rightarrow> s2 | Some c \<Rightarrow> s2\<lparr>mappableLinks := c\<rparr>);
                   s4 = s3\<lparr>pollingTimeSec := py_round (env_elapsed env) 2\<rparr>;
                   s5 = (case env_protocol_counts env of
                           None \<Rightarrow> s4
                         | Some (b, ol, c) \<Rightarrow>
                             s4\<lparr>babelNodes := b, olsrNodes := ol, comboNodes := c\<rparr>)
               in \<lparr>res_outcome = Completed, res_daemon = d1\<lparr>stats := s5\<rparr>,
                   res_map_info = save_polling_stats s5 (env_now env) tbl,
                   res_trace = before @
                     [EvPollAllNodes (parallel_threads d1) node_devices tasks, EvCalculateStats,
                      EvBuildLinkTopology, EvGenerateDataFiles, EvSavePollingStats]\<rparr>)))"

definition poll_cycle :: "cycle_env \<Rightarrow> daemon \<Rightarrow> map_info \<Rightarrow> cycle_result" where
  "poll_cycle env d0 tbl =
     (let d = d0\<lparr>cycle_count := cycle_count d0 + 1\<rparr> in
      case fetch_topology (env_nodes_payload env) (env_link_map env) d of
        (Inl e, d1) \<Rightarrow>
          \<lparr>res_outcome = Raised e, res_daemon = d1, res_map_info = tbl,
           res_trace = [EvFetchTopology]\<rparr>
      | (Inr None, d1) \<Rightarrow>
          \<lparr>res_outcome = NoTopology, res_daemon = d1, res_map_info = tbl,
           res_trace = [EvFetchTopology]\<rparr>
      | (Inr (Some topology), d1) \<Rightarrow>
          (case build_node_list topology d1 of
             (Inl e, d2) \<Rightarrow>
               \<lparr>res_outcome = Raised e, res_daemon = d2, res_map_info = tbl,
                res_trace = [EvFetchTopology, EvBuildNodeList]\<rparr>
           | (Inr node_devices, d2) \<Rightarrow>
               poll_and_save env node_devices
                 (d2\<lparr>stats := (stats d2)\<lparr>nodeTotal := int (length node_devices)\<rparr>\<rparr>) tbl))"

text \<open>
  The daemon loop: cycle after cycle, an exception in one does not stop the next. A cycle
  that blocks never returns to the loop, so no later cycle starts: the state after the
  given cycles is then \<open>None\<close>.
\<close>

fun run_cycles ::
    "cycle_env list \<Rightarrow> daemon \<Rightarrow> map_info \<Rightarrow> (daemon \<times> map_info) option" where
  "run_cycles [] d tbl = Some (d, tbl)"
| "run_cycles (env # envs) d tbl =
     (let r = poll_cycle env d tbl
      in if res_outcome r = Blocked then None
         else run_cycles envs (res_daemon r) (res_map_info r))"

section \<open>A seed with two neighbours\<close>

definition example_cfg :: config where
  "example_cfg = \<lparr>cfg_nodelistNode = ''localnode.local.mesh'', cfg_numParallelThreads = 60,
                   cfg_pollerCycleTime = 30\<rparr>"

text \<open>The same settings with \<open>numParallelThreads = 0\<close>.\<close>

definition zero_budget_cfg :: config where
  "zero_budget_cfg = \<lparr>cfg_nodelistNode = ''localnode.local.mesh'', cfg_numParallelThreads = 0,
                       cfg_pollerCycleTime = 30\<rparr>"

definition example_payload :: json where
  "example_payload =
     JDict [(''nodes'', JList
               [JDict [(''name'', JStr ''N2''), (''ip'', JStr ''10.1.1.2''),
                       (''lat'', JNum 40), (''lon'', JNum (- 104))],
                JDict [(''name'', JStr ''N3''), (''ip'', JStr ''10.1.1.3''),
                       (''lat'', JNum 41), (''lon'', JNum (- 104))]]),
            (''node'', JStr ''SEED''), (''lat'', JNum 40), (''lon'', JNum (- 105)),
            (''interfaces'', JList
               [JDict [(''name'', JStr ''br-nomesh''), (''ip'', JStr ''10.1.1.1'')]])]"

definition example_link_map :: link_map where
  "example_link_map =
     [(JStr ''10.1.1.2'', JDict [(''destinationIP'', JStr ''10.1.1.2''),
                                  (''linkType'', JStr ''RF'')])]"

definition example_env :: cycle_env where
  "example_env =
     \<lparr>env_nodes_payload = example_payload, env_link_map = example_link_map,
      env_polled = [\<lparr>pn_lat = 40, pn_lon = - 104, pn_response_time_ms = 25 / 2\<rparr>],
      env_task_errors = 1, env_link_count = Some 1, env_protocol_counts = Some (1, 0, 0),
      env_elapsed = 3456 / 1000, env_now = 1000\<rparr>"

definition example_devices :: "(json \<times> device) list" where
  "example_devices =
     [(JStr ''10.1.1.2'',
       \<lparr>hopsAway = Some 1, dev_link_info = [], dev_lat = JNum 40, dev_lon = JNum (- 104),
        dev_name = JStr ''N2'', dev_is_localnode = JBool False\<rparr>),
      (JStr ''10.1.1.3'',
       \<lparr>hopsAway = Some 1, dev_link_info = [], dev_lat = JNum 41, dev_lon = JNum (- 104),
        dev_name = JStr ''N3'', dev_is_localnode = JBool False\<rparr>)]"

section \<open>The node table\<close>

text \<open>
  A row of \<open>node_info\<close>: the key, the columns that \<open>upsert_node\<close> and the artifact
  emitter treat specially, and the remaining text columns together. A column is
  \<open>None\<close> when it is \<open>NULL\<close>. The table holds the values as the statement passes
  them.
\<close>

record node_row =
  row_wlan_ip :: string
  row_node :: "string option"
  row_lat :: "real option"
  row_lon :: "real option"
  row_channel :: "string option"
  row_board_id :: "string option"
  row_mesh_supernode :: "string option"
  row_meshRF :: "string option"
  row_services :: "string option"
  row_loadavg :: "string option"
  row_link_info :: "string option"
  row_hopsAway :: "int option"
  row_response_time_ms :: "real option"
  row_last_seen :: real
  row_other :: "(string \<times> string) list"

type_synonym node_table = "string \<rightharpoonup> node_row"

text \<open>The same fields of a \<open>NodeInfo\<close>; \<open>lat\<close> and \<open>lon\<close> may be \<open>None\<close>.\<close>

record node_info =
  ni_wlan_ip :: string
  ni_node :: string
  ni_lat :: "real option"
  ni_lon :: "real option"
  ni_channel :: string
  ni_board_id :: string
  ni_mesh_supernode :: string
  ni_meshRF :: string
  ni_services :: string
  ni_loadavg :: string
  ni_link_info :: string
  ni_hopsAway :: int
  ni_response_time_ms :: real
  ni_other :: "(string \<times> string) list"

datatype log_entry = InvalidLat real | InvalidLon real

record upsert_result =
  up_logs :: "log_entry list"
  up_node_data :: node_info
  up_table :: node_table

text \<open>
  \<open>MySQLAdapter.upsert_node\<close>: the coordinates are rounded in the \<open>NodeInfo\<close>
  itself, a value out of range is logged at warning level, and the statement runs with
  the rounded values whatever they are. On a duplicate key every column is overwritten,
  \<open>link_info\<close> only by a non-empty value; \<open>last_seen\<close> is the time of the write.
\<close>

definition upsert_node :: "node_info \<Rightarrow> real \<Rightarrow> node_table \<Rightarrow> upsert_result" where
  "upsert_node node_data0 now tbl =
     (let link_info_insert = (if ni_link_info node_data0 = [] then None
                              else Some (ni_link_info node_data0));
          node_data = node_data0\<lparr>ni_lat := map_option (\<lambda>x. py_round x 7) (ni_lat node_data0),
                                 ni_lon := map_option (\<lambda>x. py_round x 7) (ni_lon node_data0)\<rparr>;
          lat_log = (case ni_lat node_data of
                       None \<Rightarrow> []
                     | Some x \<Rightarrow> if x < - 90 \<or> 90 < x then [InvalidLat x] else []);
          lon_log = (case ni_lon node_data of
                       None \<Rightarrow> []
                     | Some x \<Rightarrow> if x < - 180 \<or> 180 < x then [InvalidLon x] else []);
          kept_link_info = (case tbl (ni_wlan_ip node_data) of
                              None \<Rightarrow> None | Some old \<Rightarrow> row_link_info old)
      in \<lparr>up_logs = lat_log @ lon_log,
          up_node_data = node_data,
          up_table = tbl(ni_wlan_ip node_data \<mapsto>
            \<lparr>row_wlan_ip = ni_wlan_ip node_data,
             row_node = Some (ni_node node_data),
             row_lat = ni_lat node_data,
             row_lon = ni_lon node_data,
             row_channel = Some (ni_channel node_data),
             row_board_id = Some (ni_board_id node_data),
             row_mesh_supernode = Some (ni_mesh_supernode node_data),
             row_meshRF = Some (ni_meshRF node_data),
             row_services = Some (ni_services node_data),
             row_loadavg = Some (ni_loadavg node_data),
             row_link_info = (case link_info_insert of
                                Some l \<Rightarrow> Some l | None \<Rightarrow> kept_link_info),
             row_hopsAway = Some (ni_hopsAway node_data),
             row_response_time_ms = Some (ni_response_time_ms node_data),
             row_last_seen = now,
             row_other = ni_other node_data\<rparr>)\<rparr>)"

definition example_node :: node_info where
  "example_node =
     \<lparr>ni_wlan_ip = ''10.1.1.2'', ni_node = ''N2'', ni_lat = Some (9512345678 / 100000000),
      ni_lon = Some (- 104), ni_channel = ''149'', ni_board_id = ''0xe855'',
      ni_mesh_supernode = ''false'', ni_meshRF = ''on'', ni_services = '''',
      ni_loadavg = '''', ni_link_info = '''', ni_hopsAway = 1, ni_response_time_ms = 25 / 2,
      ni_other = []\<rparr>"

section \<open>The artifact emitter: band buckets\<close>

datatype bucket = NoRF | Supernode | B900 | B2ghz | B3ghz | B5ghz

definition all_buckets :: "bucket list" where
  "all_buckets = [NoRF, Supernode, B900, B2ghz, B3ghz, B5ghz]"

text \<open>
  \<open>str.isdigit()\<close>: below 256 the digits are \<open>0\<close> to \<open>9\<close> and the superscripts
  one, two and three, which \<open>int()\<close> rejects.
\<close>

definition py_isdigit :: "string \<Rightarrow> bool" where
  "py_isdigit s =
     (s \<noteq> [] \<and> list_all (\<lambda>c. is_digit c \<or> c \<in> set [CHR 0xB2, CHR 0xB3, CHR 0xB9]) s)"

definition band_of_channel :: "int \<Rightarrow> bucket option" where
  "band_of_channel ch =
     (if ch \<le> 11 then Some B2ghz
      else if (37 \<le> ch \<and> ch \<le> 64) \<or> (100 \<le> ch \<and> ch \<le> 184) \<or> 3000 \<le> ch then Some B5ghz
      else if 76 \<le> ch \<and> ch \<le> 99 then Some B3ghz
      else None)"

text \<open>
  "Categorize by frequency band if location is available": the bucket a row of the node
  table goes to, if any. The columns read here are text, so the branch for a channel
  that is an \<open>int\<close> is never taken.
\<close>

definition categorize :: "node_row \<Rightarrow> py_error + bucket option" where
  "categorize node =
     (let lat = row_lat node; lon = row_lon node in
      if lat \<noteq> Some 0 \<or> lon \<noteq> Some 0 then
        (let is_supernode = (row_mesh_supernode node = Some ''true'');
             is_no_rf = (row_meshRF node = Some ''off'' \<or> row_channel node = Some ''none'');
             channel = row_channel node;
             board_id = row_board_id node
         in if is_supernode then Inr (Some Supernode)
            else if is_no_rf then Inr (Some NoRF)
            else if channel = Some ''none'' then Inr (Some NoRF)
            else if board_id \<in> set [Some ''0xe009'', Some ''0xe1b9'', Some ''0xe239'']
              then Inr (Some B900)
            else (case channel of
                    Some text \<Rightarrow>
                      if py_isdigit text then
                        (case py_int text of
                           None \<Rightarrow> Inl ValueError
                         | Some ch \<Rightarrow> Inr (band_of_channel ch))
                      else Inr None
                  | None \<Rightarrow> Inr None))
      else Inr None)"

text \<open>
  One turn of the loop over the rows of \<open>get_all_nodes\<close>. The dict \<open>node_data\<close> built
  from a row is represented by the row. Building it raises \<open>TypeError\<close> when
  \<open>response_time_ms\<close> is \<open>NULL\<close>; any exception ends \<open>_generate_data_files\<close>
  without an artifact.
\<close>

definition place_node ::
    "node_row \<Rightarrow> (bucket \<Rightarrow> node_row list) \<Rightarrow> py_error + (bucket \<Rightarrow> node_row list)" where
  "place_node node all_devices =
     (if row_response_time_ms node = None then Inl TypeError
      else (case categorize node of
              Inl e \<Rightarrow> Inl e
            | Inr None \<Rightarrow> Inr all_devices
            | Inr (Some b) \<Rightarrow> Inr (all_devices(b := all_devices b @ [node]))))"

fun place_all ::
    "node_row list \<Rightarrow> (bucket \<Rightarrow> node_row list) \<Rightarrow> py_error + (bucket \<Rightarrow> node_row list)" where
  "place_all [] all_devices = Inr all_devices"
| "place_all (node # rest) all_devices =
     (case place_node node all_devices of
        Inl e \<Rightarrow> Inl e
      | Inr devs \<Rightarrow> place_all rest devs)"

text \<open>\<open>allDevices\<close> of the emitted map artifact, for the rows read from the table.\<close>

definition all_devices_of :: "node_row list \<Rightarrow> py_error + (bucket \<Rightarrow> node_row list)" where
  "all_devices_of all_nodes = place_all all_nodes (\<lambda>b. [])"

definition example_row :: "string \<Rightarrow> real \<Rightarrow> real \<Rightarrow> string \<Rightarrow> string \<Rightarrow> node_row" where
  "example_row ip lat lon channel supernode =
     \<lparr>row_wlan_ip = ip, row_node = Some ip, row_lat = Some lat, row_lon = Some lon,
      row_channel = Some channel, row_board_id = Some ''0xe855'',
      row_mesh_supernode = Some supernode, row_meshRF = Some ''on'', row_services = None,
      row_loadavg = None, row_link_info = None, row_hopsAway = Some 1,
      row_response_time_ms = Some 12, row_last_seen = 0, row_other = []\<rparr>"

definition example_rows :: "node_row list" where
  "example_rows =
     [example_row ''10.1.1.2'' 40 (- 104) ''149'' ''false'',
      example_row ''10.1.1.3'' 0 0 ''149'' ''false'',
      example_row ''10.1.1.4'' 41 (- 104) ''149'' ''true'',
      example_row ''10.1.1.5'' 41 (- 105) ''6'' ''false'']"

section \<open>Distance and bearing\<close>

text \<open>
  \<open>math.radians\<close>, \<open>math.degrees\<close>, \<open>math.atan2\<close> and the float \<open>%\<close> with a
  positive modulus, on reals.
\<close>

definition radians :: "real \<Rightarrow> real" where
  "radians x = x * (pi / 180)"

definition degrees :: "real \<Rightarrow> real" where
  "degrees x = x * (180 / pi)"

definition atan2 :: "real \<Rightarrow> real \<Rightarrow> real" where
  "atan2 y x =
     (if 0 < x then arctan (y / x)
      else if x < 0 then (if 0 \<le> y then arctan (y / x) + pi else arctan (y / x) - pi)
      else if 0 < y then pi / 2
      else if y < 0 then - (pi / 2)
      else 0)"

definition py_fmod :: "real \<Rightarrow> real \<Rightarrow> real" where
  "py_fmod x m = x - m * of_int \<lfloor>x / m\<rfloor>"

record dist_bearing =
  distanceKM :: real
  distanceMiles :: real
  bearing :: real

text \<open>
  \<open>_calculate_distance_bearing\<close>. \<open>math.sqrt\<close> raises \<open>ValueError\<close> on a negative
  argument.
\<close>

definition calculate_distance_bearing ::
    "real \<Rightarrow> real \<Rightarrow> real \<Rightarrow> real \<Rightarrow> py_error + dist_bearing" where
  "calculate_distance_bearing lat1 lon1 lat2 lon2 =
     (let lat1_rad = radians lat1;
          lat2_rad = radians lat2;
          delta_lat = radians (lat2 - lat1);
          delta_lon = radians (lon2 - lon1);
          a = (sin (delta_lat / 2))\<^sup>2
              + cos lat1_rad * cos lat2_rad * (sin (delta_lon / 2))\<^sup>2
      in if a < 0 \<or> 1 - a < 0 then Inl ValueError
         else
           (let c = 2 * atan2 (sqrt a) (sqrt (1 - a));
                distance_km = 6371 * c;
                distance_miles = distance_km * (621371 / 1000000);
                y = sin delta_lon * cos lat2_rad;
                x = cos lat1_rad * sin lat2_rad - sin lat1_rad * cos lat2_rad * cos delta_lon;
                bearing_deg = py_fmod (degrees (atan2 y x) + 360) 360
            in Inr \<lparr>distanceKM = py_round distance_km 2,
                    distanceMiles = py_round distance_miles 2,
                    bearing = py_round bearing_deg 1\<rparr>))"

section \<open>Properties of the firmware classifier\<close>

lemma split_on_nonempty: "split_on sep s \<noteq> []"
  by (induction s) (auto split: list.splits)

lemma split_on_append:
  "sep \<notin> set a \<Longrightarrow> split_on sep (a @ sep # r) = a # split_on sep r"
  by (induction a) (auto split: list.splits simp: split_on_nonempty)

lemma split_on_single: "sep \<notin> set a \<Longrightarrow> split_on sep a = [a]"
  by (induction a) (auto split: list.splits)

lemma split_on_Cons_cases:
  "split_on sep s = p # ps \<Longrightarrow>
     sep \<notin> set p \<and> (if ps = [] then s = p else (\<exists>r. s = p @ sep # r \<and> split_on sep r = ps))"
proof (induction s arbitrary: p ps)
  case Nil
  then show ?case by simp
next
  case (Cons c cs)
  show ?case
  proof (cases "c = sep")
    case True
    with Cons.prems show ?thesis by (auto simp: split_on_nonempty)
  next
    case False
    obtain q qs where q: "split_on sep cs = q # qs"
      using split_on_nonempty [of sep cs] by (cases "split_on sep cs") auto
    with False Cons.prems have p: "p = c # q" "ps = qs" by auto
    from Cons.IH [OF q] False p show ?thesis by (auto split: if_splits)
  qed
qed

lemma rmatch_Cls_iff:
  "(b', t) \<in> set (rmatch (Cls p) (b, s)) \<longleftrightarrow> (\<exists>c. s = c # t \<and> p c \<and> \<not> b')"
  by (auto split: list.splits)

lemma rpt_class_iff:
  assumes f: "\<And>b s b' t. (b', t) \<in> set (f (b, s)) \<longleftrightarrow> (\<exists>c. s = c # t \<and> p c \<and> \<not> b')"
  shows "(b', t) \<in> set (rpt f lo hi (b, s)) \<longleftrightarrow>
     (\<exists>u. s = u @ t \<and> list_all p u \<and> lo \<le> length u \<and> length u \<le> hi \<and> (b' \<longleftrightarrow> b \<and> u = []))"
proof (induction hi arbitrary: lo b s)
  case 0
  then show ?case by auto
next
  case (Suc hi)
  show ?case (is "?L \<longleftrightarrow> ?R")
  proof
    assume ?L
    then consider "lo = 0" "b' = b" "t = s"
      | st where "st \<in> set (f (b, s))" "(b', t) \<in> set (rpt f (lo - 1) hi st)"
      by (auto split: if_splits)
    then show ?R
    proof cases
      case 1
      then show ?thesis by (intro exI [of _ "[]"]) auto
    next
      case 2
      obtain b1 cs where st: "st = (b1, cs)" by (cases st)
      from 2(1) [unfolded st f] obtain c where c: "s = c # cs" "p c" "\<not> b1" by auto
      from 2(2) [unfolded st Suc.IH] obtain u where
        u: "cs = u @ t" "list_all p u" "lo - 1 \<le> length u" "length u \<le> hi" "b' \<longleftrightarrow> b1 \<and> u = []"
        by auto
      with c show ?thesis by (intro exI [of _ "c # u"]) auto
    qed
  next
    assume ?R
    then obtain u where u: "s = u @ t" "list_all p u" "lo \<le> length u" "length u \<le> Suc hi"
      "b' \<longleftrightarrow> b \<and> u = []" by auto
    show ?L
    proof (cases u)
      case Nil
      with u show ?thesis by auto
    next
      case (Cons c v)
      with u have 1: "(False, v @ t) \<in> set (f (b, s))"
        unfolding f by auto
      from Cons u have "(b', v @ t) = (b', v @ t) \<and> (b', t) \<in> set (rpt f (lo - 1) hi (False, v @ t))"
        unfolding Suc.IH by (intro conjI refl exI [of _ v]) auto
      with 1 show ?thesis by (simp only: rpt.simps set_append set_concat set_map) blast
    qed
  qed
qed

lemma rmatch_Rpt_Cls_iff:
  "(b', t) \<in> set (rmatch (Rpt lo hi (Cls p)) (b, s)) \<longleftrightarrow>
     (\<exists>u. s = u @ t \<and> list_all p u \<and> lo \<le> length u \<and> length u \<le> hi \<and> (b' \<longleftrightarrow> b \<and> u = []))"
  unfolding rmatch.simps(5) by (rule rpt_class_iff) (rule rmatch_Cls_iff)

lemma rmatch_Seq_iff:
  "x \<in> set (rmatch (Seq r1 r2) st) \<longleftrightarrow> (\<exists>y \<in> set (rmatch r1 st). x \<in> set (rmatch r2 y))"
  by auto

lemma rmatch_lit_iff:
  "(b', t) \<in> set (rmatch (lit c) (b, s)) \<longleftrightarrow> (s = c # t \<and> \<not> b')"
  by (auto simp: lit_def split: list.splits)

lemma rmatch_Eol_end_iff:
  "(b', []) \<in> set (rmatch Eol (b, s)) \<longleftrightarrow> (s = [] \<and> b' = b)"
  by auto

lemma rmatch_Bol_iff:
  "(b', t) \<in> set (rmatch Bol (b, s)) \<longleftrightarrow> (b \<and> b' \<and> t = s)"
  by auto

lemma re_fullmatch_iff:
  "re_fullmatch r s \<longleftrightarrow> (\<exists>b. (b, []) \<in> set (rmatch r (True, s)))"
  by (force simp: re_fullmatch_def list_ex_iff)

lemma seq_Bol_iff:
  "x \<in> set (rmatch (Seq Bol r) (b, s)) \<longleftrightarrow> (b \<and> x \<in> set (rmatch r (b, s)))"
  by auto

lemma seq_lit_iff:
  "x \<in> set (rmatch (Seq (lit c) r) (b, s)) \<longleftrightarrow> (\<exists>t. s = c # t \<and> x \<in> set (rmatch r (False, t)))"
  unfolding rmatch_Seq_iff by (auto simp: rmatch_lit_iff)

lemma seq_Rpt_iff:
  "x \<in> set (rmatch (Seq (Rpt lo hi (Cls p)) r) (b, s)) \<longleftrightarrow>
     (\<exists>u t. s = u @ t \<and> list_all p u \<and> lo \<le> length u \<and> length u \<le> hi \<and>
        x \<in> set (rmatch r (b \<and> u = [], t)))"
  unfolding rmatch_Seq_iff Bex_def split_paired_Ex rmatch_Rpt_Cls_iff by blast

lemma ex_not_bool: "(\<exists>b::bool. \<not> b) = True"
  by (simp add: exI [of _ False])

lemma version_re_iff:
  "re_fullmatch version_re s \<longleftrightarrow>
     (\<exists>a b c d. digits12 a \<and> digits12 b \<and> digits12 c \<and> digits12 d \<and>
        s = a @ CHR ''.'' # b @ CHR ''.'' # c @ CHR ''.'' # d)"
  (is "?L \<longleftrightarrow> ?R")
proof -
  have "?L \<longleftrightarrow>
    (\<exists>a ta. s = a @ ta \<and> digits12 a \<and> (\<exists>tb. ta = CHR ''.'' # tb \<and>
      (\<exists>b tc. tb = b @ tc \<and> digits12 b \<and> (\<exists>td. tc = CHR ''.'' # td \<and>
        (\<exists>c te. td = c @ te \<and> digits12 c \<and> (\<exists>d. te = CHR ''.'' # d \<and> digits12 d))))))"
    unfolding re_fullmatch_iff version_re_def
    by (simp only: seq_Bol_iff seq_lit_iff seq_Rpt_iff rmatch_Eol_end_iff)
       (simp add: digits12_def conj_ac ex_not_bool)
  also have "\<dots> \<longleftrightarrow> ?R"
    by (rule iffI; clarify) (intro exI conjI; (assumption | rule refl))+
  finally show ?thesis .
qed

lemma is_digit_simps:
  "is_digit c \<Longrightarrow> c \<noteq> CHR ''.''" "is_digit c \<Longrightarrow> c \<noteq> CHR ''-''" "is_digit c \<Longrightarrow> c \<noteq> CHR ''+''"
  "is_digit c \<Longrightarrow> c \<noteq> CHR ''_''" "is_digit c \<Longrightarrow> \<not> int_isspace c"
  by (auto simp: is_digit_def int_isspace_def)

lemma is_hex_simps: "is_hex c \<Longrightarrow> c \<noteq> CHR ''-''"
  by (auto simp: is_hex_def)

lemma digits_no_sep:
  "list_all is_digit a \<Longrightarrow> CHR ''.'' \<notin> set a" "list_all is_digit a \<Longrightarrow> CHR ''-'' \<notin> set a"
  by (auto simp: list_all_iff dest: is_digit_simps)

lemma hex_no_sep: "list_all is_hex a \<Longrightarrow> CHR ''-'' \<notin> set a"
  by (auto simp: list_all_iff dest: is_hex_simps)

lemma dotted_quad_iff:
  "dotted_quad s \<longleftrightarrow>
     (\<exists>a b c d. digits12 a \<and> digits12 b \<and> digits12 c \<and> digits12 d \<and>
        s = a @ CHR ''.'' # b @ CHR ''.'' # c @ CHR ''.'' # d)"
  (is "?L \<longleftrightarrow> ?R")
proof
  assume ?L
  then obtain a b c d where sp: "split_on CHR ''.'' s = [a, b, c, d]"
    and dg: "digits12 a" "digits12 b" "digits12 c" "digits12 d"
    by (auto simp: dotted_quad_def split: list.splits)
  from split_on_Cons_cases [OF sp] obtain r1 where
    r1: "s = a @ CHR ''.'' # r1" "split_on CHR ''.'' r1 = [b, c, d]" by auto
  from split_on_Cons_cases [OF r1(2)] obtain r2 where
    r2: "r1 = b @ CHR ''.'' # r2" "split_on CHR ''.'' r2 = [c, d]" by auto
  from split_on_Cons_cases [OF r2(2)] obtain r3 where
    r3: "r2 = c @ CHR ''.'' # r3" "split_on CHR ''.'' r3 = [d]" by auto
  from split_on_Cons_cases [OF r3(2)] have "r3 = d" by auto
  with r1 r2 r3 dg show ?R by blast
next
  assume ?R
  then obtain a b c d where dg: "digits12 a" "digits12 b" "digits12 c" "digits12 d"
    and s: "s = a @ CHR ''.'' # b @ CHR ''.'' # c @ CHR ''.'' # d" by blast
  from dg have "split_on CHR ''.'' s = [a, b, c, d]"
    unfolding s by (simp add: split_on_append split_on_single digits_no_sep digits12_def)
  with dg show ?L by (simp add: dotted_quad_def)
qed

lemma version_re_dotted_quad: "re_fullmatch version_re s = dotted_quad s"
  by (simp only: version_re_iff dotted_quad_iff)

lemma int_strip_no_space: "list_all (\<lambda>c. \<not> int_isspace c) s \<Longrightarrow> int_strip s = s"
proof -
  have d: "dropWhile int_isspace t = t" if "list_all (\<lambda>c. \<not> int_isspace c) t" for t
    using that by (cases t) auto
  assume a: "list_all (\<lambda>c. \<not> int_isspace c) s"
  then have "list_all (\<lambda>c. \<not> int_isspace c) (rev s)" by (simp add: list_all_iff)
  with a show ?thesis by (simp add: int_strip_def d)
qed

lemma int_body_digits: "s \<noteq> [] \<Longrightarrow> list_all is_digit s \<Longrightarrow> int_body s"
  by (induction s rule: int_body.induct) (auto dest: is_digit_simps)

lemma py_int_digits:
  assumes "s \<noteq> []" "list_all is_digit s" "length s \<le> 8"
  shows "py_int s = Some (int (dec_val s))"
proof -
  from assms(2) have sp: "int_strip s = s"
    by (intro int_strip_no_space) (auto simp: list_all_iff dest: is_digit_simps)
  from assms(2) have fd: "filter is_digit s = s"
    by (auto simp: list_all_iff filter_id_conv)
  from assms(2) have f: "filter (\<lambda>c. c \<noteq> CHR ''_'') s = s"
    by (auto simp: list_all_iff filter_id_conv dest: is_digit_simps)
  from assms obtain c r where cr: "s = c # r" "is_digit c" by (cases s) auto
  then have ne: "c \<noteq> CHR ''-''" "c \<noteq> CHR ''+''" by (auto dest: is_digit_simps)
  have body: "(case s of [] \<Rightarrow> [] | c # r \<Rightarrow> if c = CHR ''-'' \<or> c = CHR ''+'' then r else s) = s"
    using cr ne by simp
  have neg: "(case s of [] \<Rightarrow> False | c # r \<Rightarrow> c = CHR ''-'') = False"
    using cr ne by simp
  show ?thesis
    unfolding py_int_def sp Let_def body neg f fd
    using int_body_digits [OF assms(1,2)] assms(3) by (simp add: int_max_str_digits_def)
qed

lemma version_to_int_dotted_quad:
  assumes "dotted_quad s"
  shows "version_to_int s = Some (quad_order s)"
proof -
  from assms obtain a b c d where sp: "split_on CHR ''.'' s = [a, b, c, d]"
    and dg: "digits12 a" "digits12 b" "digits12 c" "digits12 d"
    by (auto simp: dotted_quad_def split: list.splits)
  from dg have "py_int a = Some (int (dec_val a))" "py_int b = Some (int (dec_val b))"
    "py_int c = Some (int (dec_val c))" "py_int d = Some (int (dec_val d))"
    by (auto simp: digits12_def intro!: py_int_digits)
  moreover from sp have "s \<noteq> []" by auto
  ultimately show ?thesis
    by (simp add: version_to_int_def quad_order_def sp)
qed

lemma nightly_re_iff:
  "re_fullmatch nightly_re s \<longleftrightarrow>
     (\<exists>d h. list_all is_digit d \<and> length d = 8 \<and> list_all is_hex h \<and> 7 \<le> length h \<and>
        length h \<le> 8 \<and> s = d @ CHR ''-'' # h)"
  (is "?L \<longleftrightarrow> ?R")
proof -
  have "?L \<longleftrightarrow>
    (\<exists>d t. s = d @ t \<and> list_all is_digit d \<and> length d = 8 \<and>
      (\<exists>h. t = CHR ''-'' # h \<and> list_all is_hex h \<and> 7 \<le> length h \<and> length h \<le> 8))"
    unfolding re_fullmatch_iff nightly_re_def
    by (simp only: seq_Bol_iff seq_lit_iff seq_Rpt_iff rmatch_Eol_end_iff)
       (simp add: conj_ac ex_not_bool eq_iff [of _ "8::nat"])
  also have "\<dots> \<longleftrightarrow> ?R"
    by (rule iffI; clarify) (intro exI conjI; (assumption | rule refl))+
  finally show ?thesis .
qed

lemma nightly_id_iff:
  "nightly_id s \<longleftrightarrow>
     (\<exists>d h. list_all is_digit d \<and> length d = 8 \<and> list_all is_hex h \<and> 7 \<le> length h \<and>
        length h \<le> 8 \<and> s = d @ CHR ''-'' # h)"
  (is "?L \<longleftrightarrow> ?R")
proof
  assume ?L
  then obtain d h where sp: "split_on CHR ''-'' s = [d, h]"
    and dh: "list_all is_digit d" "length d = 8" "list_all is_hex h" "7 \<le> length h" "length h \<le> 8"
    by (auto simp: nightly_id_def split: list.splits)
  from split_on_Cons_cases [OF sp] obtain r where
    r: "s = d @ CHR ''-'' # r" "split_on CHR ''-'' r = [h]" by auto
  from split_on_Cons_cases [OF r(2)] have "r = h" by auto
  with r dh show ?R by blast
next
  assume ?R
  then obtain d h where dh: "list_all is_digit d" "length d = 8" "list_all is_hex h"
      "7 \<le> length h" "length h \<le> 8" and s: "s = d @ CHR ''-'' # h" by blast
  from dh have "split_on CHR ''-'' s = [d, h]"
    unfolding s by (simp add: split_on_append split_on_single digits_no_sep hex_no_sep)
  with dh show ?L by (simp add: nightly_id_def)
qed

lemma nightly_re_nightly_id: "re_fullmatch nightly_re s = nightly_id s"
  by (simp only: nightly_re_iff nightly_id_iff)

lemma nightly_to_int_nightly_id:
  assumes "nightly_id s"
  shows "nightly_to_int s = Some (nightly_date s)"
proof -
  from assms obtain d h where sp: "split_on CHR ''-'' s = [d, h]"
    and dh: "list_all is_digit d" "length d = 8"
    by (auto simp: nightly_id_def split: list.splits)
  from dh have "d \<noteq> []" by auto
  with dh have "py_int d = Some (int (dec_val d))" by (intro py_int_digits) simp_all
  moreover from sp have "s \<noteq> []" by auto
  ultimately show ?thesis by (simp add: nightly_to_int_def nightly_date_def sp)
qed

lemma startswith_Nil: "startswith [] (c # p) = False"
  by (simp add: startswith_def)

lemma not_shapes_Nil: "\<not> dotted_quad []" "\<not> nightly_id []"
  by (simp_all add: dotted_quad_def nightly_id_def)

lemma dotted_quad_not_nightly: "dotted_quad s \<Longrightarrow> \<not> nightly_id s"
proof
  assume "dotted_quad s" "nightly_id s"
  then obtain a r d h where "s = a @ CHR ''.'' # r" "digits12 a" "s = d @ CHR ''-'' # h"
    "list_all is_digit d" "length d = 8"
    unfolding dotted_quad_iff nightly_id_iff by blast
  then have "a @ CHR ''.'' # r = d @ CHR ''-'' # h" "length a \<le> 2" "length d = 8"
    "CHR ''.'' \<notin> set d"
    by (auto simp: digits12_def digits_no_sep)
  then show False
    by (auto simp: append_eq_append_conv2 append_eq_Cons_conv Cons_eq_append_conv)
qed

text \<open>
  Claim C6, as the code has it. \<open>_is_firmware\<close> first strips the white space around the
  version; on the stripped string it is exactly the classifier of the specification: for
  \<open>babel\<close>, true iff the string begins with \<open>babel-\<close>; for \<open>olsr\<close>, true iff it is a
  dotted quad strictly below the version cutoff or a nightly strictly below the nightly
  cutoff; for \<open>combo\<close>, true iff it does not begin with \<open>babel-\<close> and is a dotted quad
  at or above the version cutoff or a nightly at or above the nightly cutoff; false for
  every other kind and every other string.
\<close>

theorem is_firmware_classify:
  "is_firmware version kind version_cutoff nightly_cutoff =
     classify_spec (py_strip version) kind version_cutoff nightly_cutoff"
proof (cases "version = []")
  case True
  then show ?thesis
    by (simp add: is_firmware_def classify_spec_def py_strip_def startswith_def not_shapes_Nil)
next
  case False
  show ?thesis
  proof (cases "dotted_quad (py_strip version)")
    case True
    with False dotted_quad_not_nightly [OF True] show ?thesis
      by (simp add: is_firmware_def classify_spec_def version_re_dotted_quad
          version_to_int_dotted_quad below_cutoff_def at_least_cutoff_def Let_def)
  next
    case nq: False
    show ?thesis
    proof (cases "nightly_id (py_strip version)")
      case True
      with False nq show ?thesis
        by (simp add: is_firmware_def classify_spec_def version_re_dotted_quad
            nightly_re_nightly_id nightly_to_int_nightly_id below_cutoff_def at_least_cutoff_def
            Let_def)
    next
      case False
      with \<open>version \<noteq> []\<close> nq show ?thesis
        by (simp add: is_firmware_def classify_spec_def version_re_dotted_quad
            nightly_re_nightly_id Let_def)
    qed
  qed
qed

text \<open>
  Claim C6 as stated speaks of the version itself. A version with a leading blank does not
  begin with \<open>babel-\<close>, and the code classifies it as babel all the same.
\<close>

theorem is_firmware_babel_counterexample:
  "is_firmware '' babel-1'' ''babel'' 0 0 \<and> \<not> startswith '' babel-1'' ''babel-''"
  by (simp add: is_firmware_def py_strip_def py_isspace_def startswith_def)

text \<open>
  Claim C9. For every version string and every pair of cutoffs, the classifier never
  answers true for both \<open>olsr\<close> and \<open>combo\<close>.
\<close>

theorem olsr_combo_exclusive:
  "\<not> (is_firmware version ''olsr'' version_cutoff nightly_cutoff \<and>
      is_firmware version ''combo'' version_cutoff nightly_cutoff)"
  by (simp add: is_firmware_def below_cutoff_def at_least_cutoff_def Let_def split: option.splits)

lemma those_map_None:
  "those (map f xs) = None \<longleftrightarrow> list_ex (\<lambda>x. f x = None) xs"
  by (induction xs) (auto split: option.splits)

text \<open>
  Claim C7, as the code has it. On a dotted quad \<open>a.b.c.d\<close> with components of one or
  two digits \<open>version_to_int\<close> returns \<open>a\<cdot>10\<^sup>6 + b\<cdot>10\<^sup>4 + c\<cdot>10\<^sup>2 + d\<close>. It
  returns nothing exactly for the empty string and for a string one of whose
  \<open>.\<close>-separated parts \<open>int()\<close> rejects: a part that, once the white space of
  \<open>int_isspace\<close> is removed from its ends and one sign from its front, is not a run of
  at most 4300 digits with single underscores between digits. The three examples of the
  specification hold. A part with blanks around it is accepted; a part that begins with the
  separator \<open>0x1C\<close> is rejected, although \<open>str.strip()\<close> would remove that character.
\<close>

theorem version_to_int_parses:
  "(digits12 a \<and> digits12 b \<and> digits12 c \<and> digits12 d \<longrightarrow>
      version_to_int (a @ ''.'' @ b @ ''.'' @ c @ ''.'' @ d) =
        Some (int (dec_val a) * 10 ^ 6 + int (dec_val b) * 10 ^ 4 + int (dec_val c) * 10 ^ 2
              + int (dec_val d)))
   \<and> (version_to_int s = None \<longleftrightarrow>
        s = [] \<or> list_ex (\<lambda>p. py_int p = None) (split_on CHR ''.'' s))
   \<and> version_to_int ''3.25.5.0'' = Some 3250500
   \<and> version_to_int ''3.25.5'' = version_to_int ''3.25.5.0''
   \<and> version_to_int ''garbage'' = None
   \<and> version_to_int ''3. 5 '' = Some 3050000
   \<and> version_to_int (''3.'' @ [CHR 0x1C, CHR ''5'']) = None"
proof (intro conjI impI)
  assume dg: "digits12 a \<and> digits12 b \<and> digits12 c \<and> digits12 d"
  let ?s = "a @ ''.'' @ b @ ''.'' @ c @ ''.'' @ d"
  from dg have sp: "split_on CHR ''.'' ?s = [a, b, c, d]"
    by (simp add: split_on_append split_on_single digits_no_sep digits12_def)
  with dg have "dotted_quad ?s" by (simp add: dotted_quad_def)
  from version_to_int_dotted_quad [OF this] sp
  show "version_to_int ?s =
        Some (int (dec_val a) * 10 ^ 6 + int (dec_val b) * 10 ^ 4 + int (dec_val c) * 10 ^ 2
              + int (dec_val d))"
    by (simp add: quad_order_def)
next
  show "version_to_int s = None \<longleftrightarrow>
        s = [] \<or> list_ex (\<lambda>p. py_int p = None) (split_on CHR ''.'' s)"
    by (cases "those (map py_int (split_on CHR ''.'' s))")
       (simp_all add: version_to_int_def Let_def those_map_None [symmetric])
next
  show "version_to_int ''3.25.5.0'' = Some 3250500" by code_simp
  show "version_to_int ''3.25.5'' = version_to_int ''3.25.5.0''" by code_simp
  show "version_to_int ''garbage'' = None" by code_simp
  show "version_to_int ''3. 5 '' = Some 3050000" by code_simp
  show "version_to_int (''3.'' @ [CHR 0x1C, CHR ''5'']) = None" by code_simp
qed

text \<open>The theorem at \<open>3.25.5.0\<close> and at the malformed \<open>3.x\<close>.\<close>

theorem version_to_int_parses_witness:
  "digits12 ''3'' \<and> digits12 ''25'' \<and> digits12 ''5'' \<and> digits12 ''0''
   \<and> version_to_int ''3.25.5.0'' = Some 3250500
   \<and> version_to_int ''3.x'' = None
   \<and> list_ex (\<lambda>p. py_int p = None) (split_on CHR ''.'' ''3.x'')"
proof -
  have e: "py_int ''x'' = None" by code_simp
  show ?thesis
    using version_to_int_parses [of "''3''" "''25''" "''5''" "''0''" "''3.x''"]
    by (simp add: digits12_def is_digit_def dec_val_def digit_val_def e)
qed

text \<open>
  Claim C7 as stated has every input outside the dotted-quad shape rejected. Three
  components, and components of three digits, are outside that shape and are accepted.
\<close>

theorem version_to_int_shape_counterexample:
  "\<not> dotted_quad ''3.25.5'' \<and> version_to_int ''3.25.5'' = Some 3250500
   \<and> \<not> dotted_quad ''100.200.300.400'' \<and> version_to_int ''100.200.300.400'' = Some 102030400"
  by code_simp

section \<open>Properties of the sysinfo parser\<close>

lemma mesh_names_not_wlan:
  "n \<in> set mesh_iface_names \<Longrightarrow> n \<noteq> JStr ''wlan0'' \<and> n \<noteq> JStr ''wlan1'' \<and> n \<noteq> JStr ''br-lan''"
  by (auto simp: mesh_iface_names_def)

lemma parse_iface_step:
  assumes "iface_ok iface"
  shows "parse_iface iface n = Inr
     \<lparr>wlan_ip = (if wlan_ip_source iface then iface_ip iface else wlan_ip n),
      lan_ip = (if lan_ip_source iface then iface_ip iface else lan_ip n),
      wifi_mac_address = (case wlan_mac iface of Some m \<Rightarrow> m | None \<Rightarrow> wifi_mac_address n)\<rparr>"
proof (cases iface)
  case (JDict d)
  show ?thesis
  proof (cases "dict_get d ''name'' (JStr '''') \<in> set mesh_iface_names")
    case True
    note mesh_names_not_wlan [OF True]
    with True assms JDict show ?thesis
      by (cases "dict_get d ''ip'' (JStr '''')")
         (auto simp: parse_iface_def iface_ok_def wlan_ip_source_def lan_ip_source_def
           wlan_mac_def is_wlan_def iface_name_def iface_ip_def iface_mac_def ip_text_def
           Let_def split: option.splits)
  next
    case False
    with JDict show ?thesis
      by (auto simp: parse_iface_def wlan_ip_source_def lan_ip_source_def
           wlan_mac_def is_wlan_def iface_name_def iface_ip_def iface_mac_def
           Let_def split: option.splits)
  qed
qed (auto simp: parse_iface_def wlan_ip_source_def lan_ip_source_def wlan_mac_def is_wlan_def
       iface_name_def iface_ip_def iface_mac_def usable_ip_def mesh_iface_names_def)

lemma parse_interfaces_last:
  assumes "list_all iface_ok ifs"
  shows "parse_interfaces ifs n = Inr
     \<lparr>wlan_ip = last_or (wlan_ip n) (map iface_ip (filter wlan_ip_source ifs)),
      lan_ip = last_or (lan_ip n) (map iface_ip (filter lan_ip_source ifs)),
      wifi_mac_address = last_or (wifi_mac_address n) (List.map_filter wlan_mac ifs)\<rparr>"
  using assms
proof (induction ifs arbitrary: n)
  case Nil
  then show ?case by (simp add: List.map_filter_simps)
next
  case (Cons iface ifs)
  from Cons.prems have ok: "iface_ok iface" "list_all iface_ok ifs" by simp_all
  show ?case
    by (simp add: parse_iface_step [OF ok(1)] Cons.IH [OF ok(2)] List.map_filter_simps
        split: option.splits)
qed

text \<open>
  Claim C4, as the code has it. For a document with a list under \<open>interfaces\<close> on
  which the loop does not raise, \<open>wlan_ip\<close> is the address of the last interface, in
  the order of the array, that is named \<open>wlan0\<close> or \<open>wlan1\<close> with a usable address or
  named \<open>eth1.3975\<close>, \<open>eth0.3975\<close>, \<open>br-nomesh\<close> or \<open>br0\<close> with a usable address
  starting with \<open>10.\<close>, and the caller's address when there is none; \<open>lan_ip\<close> is the
  address of the last \<open>br-lan\<close> with a usable address; \<open>wifi_mac_address\<close> is the last
  \<open>mac\<close> of a \<open>wlan0\<close> or \<open>wlan1\<close>. An address is usable when it is neither empty
  nor \<open>none\<close>.
\<close>

theorem parse_sysinfo_interfaces_selects:
  assumes "map_of data ''interfaces'' = Some (JList ifs)" and "list_all iface_ok ifs"
  shows "parse_sysinfo_interfaces data ip = Inr
     \<lparr>wlan_ip = last_or (JStr ip) (map iface_ip (filter wlan_ip_source ifs)),
      lan_ip = last_or (JStr ''Not Available'') (map iface_ip (filter lan_ip_source ifs)),
      wifi_mac_address = last_or (JStr '''') (List.map_filter wlan_mac ifs)\<rparr>"
  using assms by (simp add: parse_sysinfo_interfaces_def parse_interfaces_last)

text \<open>
  The theorem at a document with \<open>wlan0\<close>, \<open>br-lan\<close>, an \<open>eth0\<close> without address
  and \<open>br0\<close>.
\<close>

theorem parse_sysinfo_interfaces_selects_witness:
  "parse_sysinfo_interfaces sysinfo_example ''10.9.9.9'' = Inr
     \<lparr>wlan_ip = JStr ''10.2.2.2'', lan_ip = JStr ''10.5.5.1'',
      wifi_mac_address = JStr ''AA:BB:CC:DD:EE:FF''\<rparr>"
proof -
  let ?ifs = "[JDict [(''name'', JStr ''wlan0''), (''mac'', JStr ''AA:BB:CC:DD:EE:FF''),
                (''ip'', JStr ''10.1.1.1'')],
         JDict [(''name'', JStr ''br-lan''), (''ip'', JStr ''10.5.5.1'')],
         JDict [(''name'', JStr ''eth0''), (''ip'', JStr ''none'')],
         JDict [(''name'', JStr ''br0''), (''ip'', JStr ''10.2.2.2'')]]"
  have 1: "map_of sysinfo_example ''interfaces'' = Some (JList ?ifs)"
    by (simp add: sysinfo_example_def)
  have 2: "list_all iface_ok ?ifs"
    by (simp add: iface_ok_def iface_name_def iface_ip_def dict_get_def mesh_iface_names_def
        usable_ip_def)
  show ?thesis
    using parse_sysinfo_interfaces_selects [OF 1 2, of "''10.9.9.9''"]
    by (simp add: wlan_ip_source_def lan_ip_source_def wlan_mac_def is_wlan_def iface_name_def
        iface_ip_def iface_mac_def dict_get_def mesh_iface_names_def usable_ip_def ip_text_def
        startswith_def List.map_filter_simps)
qed

text \<open>
  Claim C4 as stated gives \<open>wlan0\<close> and \<open>wlan1\<close> precedence. Here \<open>wlan0\<close> has a
  usable address, and \<open>wlan_ip\<close> is the address of the \<open>br0\<close> that follows it.
\<close>

theorem wlan_ip_priority_counterexample:
  "wlan_ip_source (JDict [(''name'', JStr ''wlan0''), (''ip'', JStr ''10.1.1.1'')]) \<and>
   parse_sysinfo_interfaces
     [(''interfaces'', JList
        [JDict [(''name'', JStr ''wlan0''), (''ip'', JStr ''10.1.1.1'')],
         JDict [(''name'', JStr ''br0''), (''ip'', JStr ''10.2.2.2'')]])] ''10.9.9.9''
   = Inr \<lparr>wlan_ip = JStr ''10.2.2.2'', lan_ip = JStr ''Not Available'',
           wifi_mac_address = JStr ''''\<rparr>"
  by (simp add: parse_sysinfo_interfaces_def parse_iface_def dict_get_def usable_ip_def
      mesh_iface_names_def startswith_def wlan_ip_source_def is_wlan_def iface_name_def
      iface_ip_def)

section \<open>Properties of the polling cycle\<close>

lemma fetch_topology_frame:
  assumes "fetch_topology p lm d = (r, d')"
  shows "cycle_count d' = cycle_count d" "base_parallel_threads d' = base_parallel_threads d"
    "poller_cycle_seconds d' = poller_cycle_seconds d" "stats d' = stats d"
    "localnode_ip d' = localnode_ip d"
  using assms
  by (auto simp: fetch_topology_def Let_def split: sum.splits if_splits)

lemma build_node_list_frame:
  assumes "build_node_list t d = (r, d')"
  shows "cycle_count d' = cycle_count d" "base_parallel_threads d' = base_parallel_threads d"
    "poller_cycle_seconds d' = poller_cycle_seconds d"
  using assms
  by (auto simp: build_node_list_def split: sum.splits prod.splits)

lemma poll_and_save_frame:
  "cycle_count (res_daemon (poll_and_save env nd d tbl)) = cycle_count d"
  "base_parallel_threads (res_daemon (poll_and_save env nd d tbl)) = base_parallel_threads d"
  "poller_cycle_seconds (res_daemon (poll_and_save env nd d tbl)) = poller_cycle_seconds d"
  by (simp_all add: poll_and_save_def Let_def)

lemma poll_cycle_frame:
  "cycle_count (res_daemon (poll_cycle env d tbl)) = cycle_count d + 1"
  "base_parallel_threads (res_daemon (poll_cycle env d tbl)) = base_parallel_threads d"
  "poller_cycle_seconds (res_daemon (poll_cycle env d tbl)) = poller_cycle_seconds d"
proof -
  let ?d = "d\<lparr>cycle_count := cycle_count d + 1\<rparr>"
  obtain r d1 where f: "fetch_topology (env_nodes_payload env) (env_link_map env) ?d = (r, d1)"
    by (cases "fetch_topology (env_nodes_payload env) (env_link_map env) ?d")
  note f1 = fetch_topology_frame [OF f]
  have "cycle_count (res_daemon (poll_cycle env d tbl)) = cycle_count d + 1
      \<and> base_parallel_threads (res_daemon (poll_cycle env d tbl)) = base_parallel_threads d
      \<and> poller_cycle_seconds (res_daemon (poll_cycle env d tbl)) = poller_cycle_seconds d"
  proof (cases r)
    case (Inl e)
    with f f1 show ?thesis by (simp add: poll_cycle_def)
  next
    case (Inr t)
    show ?thesis
    proof (cases t)
      case None
      with Inr f f1 show ?thesis by (simp add: poll_cycle_def)
    next
      case (Some topo)
      obtain r2 d2 where b: "build_node_list topo d1 = (r2, d2)"
        by (cases "build_node_list topo d1")
      note b1 = build_node_list_frame [OF b]
      from Some Inr f f1 b b1 show ?thesis
        by (cases r2) (simp_all add: poll_cycle_def poll_and_save_frame)
    qed
  qed
  then show "cycle_count (res_daemon (poll_cycle env d tbl)) = cycle_count d + 1"
    "base_parallel_threads (res_daemon (poll_cycle env d tbl)) = base_parallel_threads d"
    "poller_cycle_seconds (res_daemon (poll_cycle env d tbl)) = poller_cycle_seconds d"
    by simp_all
qed

lemma run_cycles_frame:
  assumes "run_cycles envs d0 tbl0 = Some (d, tbl)"
  shows "cycle_count d = cycle_count d0 + length envs"
    "base_parallel_threads d = base_parallel_threads d0"
    "poller_cycle_seconds d = poller_cycle_seconds d0"
  using assms
  by (induction envs arbitrary: d0 tbl0)
     (auto simp: Let_def poll_cycle_frame split: if_splits)

lemma dict_store_all:
  "list_all P nodes \<Longrightarrow> P (k, v) \<Longrightarrow> (\<And>k' v'. P (k', v') \<Longrightarrow> P (k', v)) \<Longrightarrow>
     list_all P (dict_store k v nodes)"
  by (induction nodes) auto

lemma build_node_loop_pollable:
  assumes "build_node_loop entries links nodes mh lip = (Inr (nodes', mh'), lip')"
    and "list_all pollable nodes"
  shows "list_all pollable nodes'"
  using assms
proof (induction entries arbitrary: nodes mh lip)
  case Nil
  then show ?case by simp
next
  case (Cons node rest)
  show ?case
  proof (cases node)
    case (JDict n)
    show ?thesis
    proof (cases "truthy (dict_get n ''ip'' JNull)")
      case False
      with JDict Cons show ?thesis by simp
    next
      case True
      let ?dev = "\<lparr>hopsAway = Some 1,
            dev_link_info = (case dict_lookup (dict_get n ''ip'' JNull) links of
                               None \<Rightarrow> [] | Some l \<Rightarrow> l),
            dev_lat = dict_get n ''lat'' JNull,
            dev_lon = dict_get n ''lon'' JNull,
            dev_name = dict_get n ''name'' JNull,
            dev_is_localnode = dict_get n ''is_localnode'' (JBool False)\<rparr>"
      from JDict True Cons.prems(1) have h: "hashable (dict_get n ''ip'' JNull)"
        by (auto simp: Let_def split: if_splits)
      have p: "list_all pollable (dict_store (dict_get n ''ip'' JNull) ?dev nodes)"
        by (rule dict_store_all [OF Cons.prems(2)]) (simp_all add: pollable_def)
      from JDict True h Cons.prems(1) show ?thesis
        by (auto simp: Let_def split: if_splits intro: Cons.IH [OF _ p])
    qed
  qed (use Cons in simp_all)
qed

lemma build_node_list_pollable:
  assumes "build_node_list t d = (Inr nodes, d')"
  shows "list_all pollable nodes"
  using assms
  by (auto simp: build_node_list_def split: sum.splits prod.splits
      dest!: build_node_loop_pollable)

lemma length_filter_enumerate:
  "length (filter (\<lambda>(idx, e). P e) (enumerate n xs)) = length (filter P xs)"
  by (induction xs arbitrary: n) auto

lemma length_poll_tasks:
  "length (poll_tasks d node_devices) = length (filter pollable node_devices)"
proof -
  have "length (poll_tasks d node_devices) =
      length (filter (\<lambda>(idx, e). pollable e) (enumerate 0 node_devices))"
    unfolding poll_tasks_def List.map_filter_def length_map
    by (rule arg_cong [where f = length], rule filter_cong)
       (auto simp: pollable_def split: option.splits)
  then show ?thesis by (simp add: length_filter_enumerate)
qed

lemma map_filter_enumerate_total:
  assumes "list_all (\<lambda>e. h e \<noteq> None) xs"
  shows "List.map_filter (\<lambda>(idx, e). case h e of None \<Rightarrow> None | Some y \<Rightarrow> Some (F idx e y))
           (enumerate n xs)
         = map (\<lambda>(idx, e). F idx e (the (h e))) (enumerate n xs)"
  using assms
  by (induction xs arbitrary: n) (auto simp: List.map_filter_simps)

lemma poll_tasks_nth_delay:
  assumes "list_all pollable node_devices" and "i < length node_devices"
  shows "task_delay (poll_tasks d node_devices ! i) =
     (if cycle_count d > 1 then inter_poll_delay d (length node_devices) * real i else 0)"
proof -
  let ?F = "\<lambda>idx e hops. \<lparr>task_ip = fst e, task_hops = hops,
       task_delay = (if cycle_count d > 1
                     then inter_poll_delay d (length node_devices) * real idx else 0)\<rparr>"
  have eq: "(\<lambda>(idx, ip, info). case hopsAway info of None \<Rightarrow> None
              | Some hops \<Rightarrow> Some \<lparr>task_ip = ip, task_hops = hops,
                    task_delay = (if cycle_count d > 1
                                  then inter_poll_delay d (length node_devices) * real idx
                                  else 0)\<rparr>)
        = (\<lambda>(idx, e). case (hopsAway \<circ> snd) e of None \<Rightarrow> None | Some y \<Rightarrow> Some (?F idx e y))"
    by (auto simp: fun_eq_iff split: option.splits)
  from assms(1) have all: "list_all (\<lambda>e. (hopsAway \<circ> snd) e \<noteq> None) node_devices"
    by (simp add: pollable_def list_all_iff)
  have "poll_tasks d node_devices =
      map (\<lambda>(idx, e). ?F idx e (the ((hopsAway \<circ> snd) e))) (enumerate 0 node_devices)"
    unfolding poll_tasks_def eq by (rule map_filter_enumerate_total [OF all])
  with assms(2) show ?thesis by (simp add: nth_enumerate_eq)
qed

lemma poll_and_save_event:
  assumes "EvPollAllNodes budget devs tasks \<in> set (res_trace (poll_and_save env nd d tbl))"
  shows "budget = (if cycle_count d = 1 then 600 else base_parallel_threads d)
       \<and> devs = nd
       \<and> tasks = poll_tasks (d\<lparr>parallel_threads :=
                      (if cycle_count d = 1 then 600 else base_parallel_threads d)\<rparr>) nd"
  using assms by (auto simp: poll_and_save_def Let_def split: if_splits)

lemma poll_cycle_event:
  assumes "EvPollAllNodes budget devs tasks \<in> set (res_trace (poll_cycle env d tbl))"
  shows "\<exists>d'. cycle_count d' = cycle_count d + 1
           \<and> base_parallel_threads d' = base_parallel_threads d
           \<and> poller_cycle_seconds d' = poller_cycle_seconds d
           \<and> list_all pollable devs
           \<and> budget = (if cycle_count d' = 1 then 600 else base_parallel_threads d')
           \<and> tasks = poll_tasks d' devs"
proof -
  let ?d = "d\<lparr>cycle_count := cycle_count d + 1\<rparr>"
  obtain r d1 where f: "fetch_topology (env_nodes_payload env) (env_link_map env) ?d = (r, d1)"
    by (cases "fetch_topology (env_nodes_payload env) (env_link_map env) ?d")
  note f1 = fetch_topology_frame [OF f]
  from assms f obtain topo where r: "r = Inr (Some topo)"
    by (cases r; cases "projr r") (auto simp: poll_cycle_def)
  obtain r2 d2 where b: "build_node_list topo d1 = (r2, d2)"
    by (cases "build_node_list topo d1")
  note b1 = build_node_list_frame [OF b]
  from assms f r b obtain nd where r2: "r2 = Inr nd"
    by (cases r2) (auto simp: poll_cycle_def)
  let ?d3 = "d2\<lparr>stats := (stats d2)\<lparr>nodeTotal := int (length nd)\<rparr>\<rparr>"
  from assms f r b r2
  have ev: "EvPollAllNodes budget devs tasks \<in> set (res_trace (poll_and_save env nd ?d3 tbl))"
    by (simp add: poll_cycle_def)
  note e = poll_and_save_event [OF ev]
  let ?d4 = "?d3\<lparr>parallel_threads :=
                      (if cycle_count ?d3 = 1 then 600 else base_parallel_threads ?d3)\<rparr>"
  from b r2 have "list_all pollable nd" by (auto dest: build_node_list_pollable)
  with e f1 b1 show ?thesis
    by (intro exI [of _ ?d4]) simp
qed

text \<open>
  Claim C1. Take the daemon after any number of earlier cycles (each of them returned to
  the loop, or there would be no next one) and run the next one. If
  that cycle reaches the fan-out, its semaphore is created with 600 when it is the first
  cycle and with the configured \<open>numParallelThreads\<close> otherwise; a task is created for
  every pollable candidate (one with known hops), \<open>N\<close> of them; and in every cycle after
  the first the task with index \<open>i\<close> gets the start delay \<open>i * (cycleSeconds / N)\<close>,
  where \<open>cycleSeconds = max(pollerCycleTime * 60, 1)\<close>. (\<open>_poll_all_nodes\<close> divides by
  the number of all candidates and counts the index over all of them; \<open>_build_node_list\<close>
  gives every candidate one hop, so in a cycle every candidate is pollable.)
\<close>

theorem poll_budget_and_spread:
  assumes "run_cycles envs (daemon_init cfg) tbl0 = Some (d, tbl)"
    and "EvPollAllNodes budget devs tasks \<in> set (res_trace (poll_cycle env d tbl))"
  shows "budget = (if envs = [] then 600 else cfg_numParallelThreads cfg)
       \<and> length tasks = length (filter pollable devs)
       \<and> (envs \<noteq> [] \<longrightarrow>
            (\<forall>i<length tasks.
               task_delay (tasks ! i) =
                 real i * (real_of_int (max (cfg_pollerCycleTime cfg * 60) 1)
                           / real (length (filter pollable devs)))))"
proof -
  note inv = run_cycles_frame [OF assms(1)]
  from poll_cycle_event [OF assms(2)] obtain d' where
    d': "cycle_count d' = cycle_count d + 1"
      "base_parallel_threads d' = base_parallel_threads d"
      "poller_cycle_seconds d' = poller_cycle_seconds d"
      "list_all pollable devs"
      "budget = (if cycle_count d' = 1 then 600 else base_parallel_threads d')"
      "tasks = poll_tasks d' devs"
    by blast
  from d'(4) have all: "filter pollable devs = devs"
    by (simp add: list_all_iff)
  have cnt: "cycle_count d' = Suc (length envs)"
    using d'(1) inv(1) by (simp add: daemon_init_def)
  have b: "budget = (if envs = [] then 600 else cfg_numParallelThreads cfg)"
    using d'(5,2) inv(2) cnt by (simp add: daemon_init_def)
  have len: "length tasks = length (filter pollable devs)"
    unfolding d'(6) by (rule length_poll_tasks)
  have delays: "task_delay (tasks ! i) =
       real i * (real_of_int (max (cfg_pollerCycleTime cfg * 60) 1)
                 / real (length (filter pollable devs)))"
    if "envs \<noteq> []" "i < length tasks" for i
  proof -
    from that(2) len all have i: "i < length devs" by simp
    from that(1) cnt have c: "cycle_count d' > 1" by (cases envs) simp_all
    from i have pos: "length devs > 0" by (cases devs) simp_all
    from poll_tasks_nth_delay [OF d'(4) i, of d'] c pos d'(3) inv(3)
    show ?thesis
      unfolding d'(6) all by (simp add: inter_poll_delay_def daemon_init_def)
  qed
  from b len delays show ?thesis by blast
qed

text \<open>
  The theorem at the second cycle of the example: the budget is the configured 60, and
  the two candidates are polled at 0 and at 900 seconds, half of the 1800 seconds of the
  cycle apart.
\<close>

theorem poll_budget_and_spread_witness:
  "run_cycles [example_env] (daemon_init example_cfg) Map.empty
     = Some (res_daemon (poll_cycle example_env (daemon_init example_cfg) Map.empty),
             res_map_info (poll_cycle example_env (daemon_init example_cfg) Map.empty))
   \<and> EvPollAllNodes 60 example_devices
        [\<lparr>task_ip = JStr ''10.1.1.2'', task_hops = 1, task_delay = 0\<rparr>,
         \<lparr>task_ip = JStr ''10.1.1.3'', task_hops = 1, task_delay = 900\<rparr>]
       \<in> set (res_trace (poll_cycle example_env
              (res_daemon (poll_cycle example_env (daemon_init example_cfg) Map.empty))
              (res_map_info (poll_cycle example_env (daemon_init example_cfg) Map.empty))))
   \<and> (60::int) = cfg_numParallelThreads example_cfg
   \<and> length (filter pollable example_devices) = 2
   \<and> (900::real) = real 1 * (real_of_int (max (cfg_pollerCycleTime example_cfg * 60) 1) / real 2)"
proof -
  let ?r = "poll_cycle example_env (daemon_init example_cfg) Map.empty"
  let ?tasks = "[\<lparr>task_ip = JStr ''10.1.1.2'', task_hops = 1, task_delay = 0\<rparr>,
         \<lparr>task_ip = JStr ''10.1.1.3'', task_hops = 1, task_delay = 900\<rparr>]"
  have c: "res_outcome ?r = Completed" by code_simp
  have h1: "run_cycles [example_env] (daemon_init example_cfg) Map.empty
      = Some (res_daemon ?r, res_map_info ?r)"
    by (simp add: Let_def c)
  have tr: "res_trace (poll_cycle example_env (res_daemon ?r) (res_map_info ?r)) =
      [EvFetchTopology, EvBuildNodeList, EvUpdateTopologyInfo,
       EvPollAllNodes 60 example_devices ?tasks,
       EvCalculateStats, EvBuildLinkTopology, EvGenerateDataFiles, EvSavePollingStats]"
    by code_simp
  have h2: "EvPollAllNodes 60 example_devices ?tasks
      \<in> set (res_trace (poll_cycle example_env (res_daemon ?r) (res_map_info ?r)))"
    unfolding tr by simp
  have p: "filter pollable example_devices = example_devices"
    by (simp add: example_devices_def pollable_def)
  have l: "length example_devices = 2" by (simp add: example_devices_def)
  from poll_budget_and_spread [OF h1 h2] h1 h2 show ?thesis
    by (simp add: p l example_cfg_def)
qed

text \<open>
  Outside a cycle, on a candidate set with an entry of unknown hops, \<open>_poll_all_nodes\<close>
  would still divide by the number of all entries and skip an index: of three entries
  with the second unknown, the two tasks start at 0 and at two thirds of the cycle.
\<close>

lemma poll_tasks_counts_every_entry:
  "map task_delay
     (poll_tasks ((daemon_init example_cfg)\<lparr>cycle_count := 2\<rparr>)
        [(JStr ''10.1.1.2'', snd (example_devices ! 0)),
         (JStr ''10.1.1.9'', (snd (example_devices ! 0))\<lparr>hopsAway := None\<rparr>),
         (JStr ''10.1.1.3'', snd (example_devices ! 1))])
   = [0, 1200]"
  by (simp add: poll_tasks_def inter_poll_delay_def daemon_init_def example_cfg_def
      example_devices_def List.map_filter_simps enumerate_simps)

lemma inter_poll_delay_parallel_threads:
  "inter_poll_delay (d\<lparr>parallel_threads := n\<rparr>) k = inter_poll_delay d k"
  by (simp add: inter_poll_delay_def)

lemma poll_tasks_parallel_threads:
  "poll_tasks (d\<lparr>parallel_threads := n\<rparr>) nd = poll_tasks d nd"
  by (simp add: poll_tasks_def inter_poll_delay_parallel_threads
      cong: option.case_cong if_cong)

lemma poll_and_save_completed:
  assumes "res_outcome (poll_and_save env nd d tbl) = Completed"
  shows "\<exists>budget tasks. (budget = 0 \<longrightarrow> tasks = []) \<and>
      res_trace (poll_and_save env nd d tbl) =
      [EvFetchTopology, EvBuildNodeList, EvUpdateTopologyInfo,
       EvPollAllNodes budget nd tasks, EvCalculateStats, EvBuildLinkTopology]
      @ [EvGenerateDataFiles, EvSavePollingStats]"
    and "res_map_info (poll_and_save env nd d tbl) =
      save_polling_stats (stats (res_daemon (poll_and_save env nd d tbl))) (env_now env) tbl"
  using assms
  by (auto simp: poll_and_save_def Let_def poll_tasks_parallel_threads split: if_splits)

lemma poll_and_save_not_completed:
  assumes "res_outcome (poll_and_save env nd d tbl) \<noteq> Completed"
  shows "res_map_info (poll_and_save env nd d tbl) = tbl"
    and "EvSavePollingStats \<notin> set (res_trace (poll_and_save env nd d tbl))"
  using assms
  by (auto simp: poll_and_save_def Let_def poll_tasks_parallel_threads split: if_splits)

lemma poll_cycle_cases:
  obtains (raised_fetch) e d1 where
      "poll_cycle env d tbl = \<lparr>res_outcome = Raised e, res_daemon = d1, res_map_info = tbl,
         res_trace = [EvFetchTopology]\<rparr>"
  | (no_topology) d1 where
      "poll_cycle env d tbl = \<lparr>res_outcome = NoTopology, res_daemon = d1, res_map_info = tbl,
         res_trace = [EvFetchTopology]\<rparr>"
  | (raised_build) e d2 where
      "poll_cycle env d tbl = \<lparr>res_outcome = Raised e, res_daemon = d2, res_map_info = tbl,
         res_trace = [EvFetchTopology, EvBuildNodeList]\<rparr>"
  | (polled) nd d3 where
      "poll_cycle env d tbl = poll_and_save env nd d3 tbl"
proof -
  let ?d = "d\<lparr>cycle_count := cycle_count d + 1\<rparr>"
  obtain r d1 where f: "fetch_topology (env_nodes_payload env) (env_link_map env) ?d = (r, d1)"
    by (cases "fetch_topology (env_nodes_payload env) (env_link_map env) ?d")
  show thesis
  proof (cases r)
    case (Inl e)
    with f show ?thesis by (intro raised_fetch [of e d1]) (simp add: poll_cycle_def)
  next
    case (Inr t)
    show ?thesis
    proof (cases t)
      case None
      with Inr f show ?thesis by (intro no_topology [of d1]) (simp add: poll_cycle_def)
    next
      case (Some topo)
      obtain r2 d2 where b: "build_node_list topo d1 = (r2, d2)"
        by (cases "build_node_list topo d1")
      show ?thesis
      proof (cases r2)
        case (Inl e)
        with Some Inr f b show ?thesis
          by (intro raised_build [of e d2]) (simp add: poll_cycle_def)
      next
        case r2: (Inr nd)
        with Some Inr f b show ?thesis
          by (intro polled [of nd "d2\<lparr>stats := (stats d2)\<lparr>nodeTotal := int (length nd)\<rparr>\<rparr>"])
             (simp add: poll_cycle_def)
      qed
    qed
  qed
qed

lemma poll_and_save_blocked_iff:
  "res_outcome (poll_and_save env nd d tbl) = Blocked \<longleftrightarrow>
     (\<exists>devs tasks. tasks \<noteq> [] \<and>
        EvPollAllNodes 0 devs tasks \<in> set (res_trace (poll_and_save env nd d tbl)))"
  by (auto simp: poll_and_save_def Let_def poll_tasks_parallel_threads split: if_splits)

text \<open>
  Claim C2, as the code has it. A cycle that completes ends with the artifact generation
  followed by \<open>save_polling_stats\<close>, which happens there and nowhere else; the row under
  \<open>POLLINFO\<close> then holds the nine aggregates of the table (configured concurrency,
  candidate count, count failed, max hops, count polled, count without location, mappable
  nodes, mappable links, cycle duration) as the statistics have them, and the time of the
  write. A cycle that does not complete (no topology, an exception, or a fan-out that
  blocks) writes nothing. The fan-out blocks exactly when its semaphore is created with 0
  and there is at least one task; that happens only after the first cycle and only when
  the configured \<open>numParallelThreads\<close> is 0.
\<close>

theorem stats_saved_after_artifacts:
  "(res_outcome (poll_cycle env d tbl) = Completed \<longrightarrow>
      (\<exists>pre. res_trace (poll_cycle env d tbl) = pre @ [EvGenerateDataFiles, EvSavePollingStats]
            \<and> EvSavePollingStats \<notin> set pre \<and> EvGenerateDataFiles \<notin> set pre)
      \<and> res_map_info (poll_cycle env d tbl) ''POLLINFO'' =
          Some \<lparr>row_numParallelThreads = numParallelThreads (stats (res_daemon (poll_cycle env d tbl))),
                row_nodeTotal = nodeTotal (stats (res_daemon (poll_cycle env d tbl))),
                row_garbageReturned = garbageReturned (stats (res_daemon (poll_cycle env d tbl))),
                row_highestHops = highestHops (stats (res_daemon (poll_cycle env d tbl))),
                row_totalPolled = totalPolled (stats (res_daemon (poll_cycle env d tbl))),
                row_noLocation = noLocation (stats (res_daemon (poll_cycle env d tbl))),
                row_mappableNodes = mappableNodes (stats (res_daemon (poll_cycle env d tbl))),
                row_mappableLinks = mappableLinks (stats (res_daemon (poll_cycle env d tbl))),
                row_pollingTimeSec = pollingTimeSec (stats (res_daemon (poll_cycle env d tbl))),
                row_lastPollingRun = env_now env\<rparr>)
   \<and> (res_outcome (poll_cycle env d tbl) \<noteq> Completed \<longrightarrow>
        res_map_info (poll_cycle env d tbl) = tbl
        \<and> EvSavePollingStats \<notin> set (res_trace (poll_cycle env d tbl)))
   \<and> (res_outcome (poll_cycle env d tbl) = Blocked \<longleftrightarrow>
        (\<exists>devs tasks. tasks \<noteq> [] \<and>
           EvPollAllNodes 0 devs tasks \<in> set (res_trace (poll_cycle env d tbl))))
   \<and> (res_outcome (poll_cycle env d tbl) = Blocked \<longrightarrow>
        cycle_count d \<noteq> 0 \<and> base_parallel_threads d = 0)"
proof -
  let ?r = "poll_cycle env d tbl"
  have blocked_iff: "res_outcome ?r = Blocked \<longleftrightarrow>
      (\<exists>devs tasks. tasks \<noteq> [] \<and> EvPollAllNodes 0 devs tasks \<in> set (res_trace ?r))"
    by (cases rule: poll_cycle_cases [of env d tbl])
       (simp_all add: poll_and_save_blocked_iff)
  have zero: "cycle_count d \<noteq> 0 \<and> base_parallel_threads d = 0" if "res_outcome ?r = Blocked"
  proof -
    from that blocked_iff obtain devs tasks where
      "EvPollAllNodes 0 devs tasks \<in> set (res_trace ?r)" by blast
    from poll_cycle_event [OF this] show ?thesis by (auto split: if_splits)
  qed
  have completed: "(\<exists>pre. res_trace ?r = pre @ [EvGenerateDataFiles, EvSavePollingStats]
            \<and> EvSavePollingStats \<notin> set pre \<and> EvGenerateDataFiles \<notin> set pre)
      \<and> res_map_info ?r ''POLLINFO'' =
          Some \<lparr>row_numParallelThreads = numParallelThreads (stats (res_daemon ?r)),
                row_nodeTotal = nodeTotal (stats (res_daemon ?r)),
                row_garbageReturned = garbageReturned (stats (res_daemon ?r)),
                row_highestHops = highestHops (stats (res_daemon ?r)),
                row_totalPolled = totalPolled (stats (res_daemon ?r)),
                row_noLocation = noLocation (stats (res_daemon ?r)),
                row_mappableNodes = mappableNodes (stats (res_daemon ?r)),
                row_mappableLinks = mappableLinks (stats (res_daemon ?r)),
                row_pollingTimeSec = pollingTimeSec (stats (res_daemon ?r)),
                row_lastPollingRun = env_now env\<rparr>"
    if c: "res_outcome ?r = Completed"
  proof (cases rule: poll_cycle_cases [of env d tbl])
    case (polled nd d3)
    from c have True: "res_outcome (poll_and_save env nd d3 tbl) = Completed"
      unfolding polled .
    note cs = poll_and_save_completed [OF True]
    from cs(1) obtain budget tasks where
      tr: "res_trace (poll_and_save env nd d3 tbl) =
        [EvFetchTopology, EvBuildNodeList, EvUpdateTopologyInfo,
         EvPollAllNodes budget nd tasks, EvCalculateStats, EvBuildLinkTopology]
        @ [EvGenerateDataFiles, EvSavePollingStats]" by blast
    have "\<exists>pre. res_trace (poll_and_save env nd d3 tbl) = pre @ [EvGenerateDataFiles, EvSavePollingStats]
            \<and> EvSavePollingStats \<notin> set pre \<and> EvGenerateDataFiles \<notin> set pre"
      by (subst tr, rule exI, rule conjI, rule refl) simp
    with cs(2) show ?thesis
      unfolding polled by (simp add: save_polling_stats_def)
  qed (use c in simp_all)
  have cut_short: "res_map_info ?r = tbl \<and> EvSavePollingStats \<notin> set (res_trace ?r)"
    if n: "res_outcome ?r \<noteq> Completed"
  proof (cases rule: poll_cycle_cases [of env d tbl])
    case (polled nd d3)
    from n have False: "res_outcome (poll_and_save env nd d3 tbl) \<noteq> Completed"
      unfolding polled .
    from poll_and_save_not_completed [OF False] show ?thesis
      unfolding polled by simp
  qed simp_all
  show ?thesis
  proof (intro conjI impI)
    show "res_outcome ?r = Blocked \<longleftrightarrow>
      (\<exists>devs tasks. tasks \<noteq> [] \<and> EvPollAllNodes 0 devs tasks \<in> set (res_trace ?r))"
      by (rule blocked_iff)
  qed (use completed cut_short zero in blast)+
qed

text \<open>
  The theorem at the first cycle of the example, which completes; at a first cycle whose
  seed gives no topology; and with \<open>numParallelThreads = 0\<close>, where the first cycle
  completes with its budget of 600 and the second blocks, leaving the table as the first
  cycle wrote it, so that the daemon reaches no third cycle.
\<close>

theorem stats_saved_after_artifacts_witness:
  "res_outcome (poll_cycle example_env (daemon_init example_cfg) Map.empty) = Completed
   \<and> res_map_info (poll_cycle example_env (daemon_init example_cfg) Map.empty) ''POLLINFO'' =
       Some \<lparr>row_numParallelThreads = 60, row_nodeTotal = 2, row_garbageReturned = 1,
             row_highestHops = 1, row_totalPolled = 1, row_noLocation = 0,
             row_mappableNodes = 1, row_mappableLinks = 1, row_pollingTimeSec = 173 / 50,
             row_lastPollingRun = 1000\<rparr>
   \<and> res_outcome (poll_cycle (example_env\<lparr>env_nodes_payload := JNull\<rparr>)
        (daemon_init example_cfg) Map.empty) = NoTopology
   \<and> res_map_info (poll_cycle (example_env\<lparr>env_nodes_payload := JNull\<rparr>)
        (daemon_init example_cfg) Map.empty) ''POLLINFO'' = None
   \<and> res_outcome (poll_cycle example_env (daemon_init zero_budget_cfg) Map.empty) = Completed
   \<and> res_outcome (poll_cycle example_env
        (res_daemon (poll_cycle example_env (daemon_init zero_budget_cfg) Map.empty))
        (res_map_info (poll_cycle example_env (daemon_init zero_budget_cfg) Map.empty)))
       = Blocked
   \<and> res_map_info (poll_cycle example_env
        (res_daemon (poll_cycle example_env (daemon_init zero_budget_cfg) Map.empty))
        (res_map_info (poll_cycle example_env (daemon_init zero_budget_cfg) Map.empty)))
       = res_map_info (poll_cycle example_env (daemon_init zero_budget_cfg) Map.empty)
   \<and> base_parallel_threads
        (res_daemon (poll_cycle example_env (daemon_init zero_budget_cfg) Map.empty)) = 0
   \<and> run_cycles [example_env, example_env] (daemon_init zero_budget_cfg) Map.empty = None"
proof -
  let ?z = "poll_cycle example_env (daemon_init zero_budget_cfg) Map.empty"
  have c: "res_outcome (poll_cycle example_env (daemon_init example_cfg) Map.empty) = Completed"
    by code_simp
  have s: "stats (res_daemon (poll_cycle example_env (daemon_init example_cfg) Map.empty)) =
     \<lparr>numParallelThreads = 60, nodeTotal = 2, garbageReturned = 1,
      highestHops = 1, totalPolled = 1, nodesWithErrors = 1, noLocation = 0,
      mappableNodes = 1, mappableLinks = 1, pollingTimeSec = 173 / 50,
      babelNodes = 1, olsrNodes = 0, comboNodes = 0,
      minResponseTimeMs = 25 / 2, maxResponseTimeMs = 25 / 2\<rparr>"
    by code_simp
  have n: "res_outcome (poll_cycle (example_env\<lparr>env_nodes_payload := JNull\<rparr>)
        (daemon_init example_cfg) Map.empty) = NoTopology"
    by code_simp
  have e: "env_now example_env = 1000" by (simp add: example_env_def)
  have z1: "res_outcome ?z = Completed" by code_simp
  have z2: "res_outcome (poll_cycle example_env (res_daemon ?z) (res_map_info ?z)) = Blocked"
    by code_simp
  have run: "run_cycles [example_env, example_env] (daemon_init zero_budget_cfg) Map.empty = None"
    by (simp add: Let_def z1 z2)
  from stats_saved_after_artifacts [of example_env "daemon_init example_cfg" Map.empty]
    stats_saved_after_artifacts [of "example_env\<lparr>env_nodes_payload := JNull\<rparr>"
      "daemon_init example_cfg" Map.empty]
    stats_saved_after_artifacts [of example_env "res_daemon ?z" "res_map_info ?z"]
  show ?thesis by (simp add: c s n e z1 z2 run)
qed

text \<open>
  Claim C2 as stated has the persisted row carry the per-protocol counts and the minimum
  and maximum response time. Two cycles that differ in exactly these leave the same row;
  and a cycle whose topology fetch fails leaves none.
\<close>

theorem stats_row_counterexample:
  "babelNodes (stats (res_daemon (poll_cycle example_env (daemon_init example_cfg) Map.empty)))
     \<noteq> babelNodes (stats (res_daemon (poll_cycle
          (example_env\<lparr>env_polled := [\<lparr>pn_lat = 40, pn_lon = - 104, pn_response_time_ms = 99\<rparr>],
                       env_protocol_counts := Some (0, 2, 0)\<rparr>)
          (daemon_init example_cfg) Map.empty)))
   \<and> minResponseTimeMs (stats (res_daemon (poll_cycle example_env (daemon_init example_cfg) Map.empty)))
     \<noteq> minResponseTimeMs (stats (res_daemon (poll_cycle
          (example_env\<lparr>env_polled := [\<lparr>pn_lat = 40, pn_lon = - 104, pn_response_time_ms = 99\<rparr>],
                       env_protocol_counts := Some (0, 2, 0)\<rparr>)
          (daemon_init example_cfg) Map.empty)))
   \<and> res_map_info (poll_cycle example_env (daemon_init example_cfg) Map.empty) ''POLLINFO''
     = res_map_info (poll_cycle
          (example_env\<lparr>env_polled := [\<lparr>pn_lat = 40, pn_lon = - 104, pn_response_time_ms = 99\<rparr>],
                       env_protocol_counts := Some (0, 2, 0)\<rparr>)
          (daemon_init example_cfg) Map.empty) ''POLLINFO''
   \<and> res_map_info (poll_cycle example_env (daemon_init example_cfg) Map.empty) ''POLLINFO'' \<noteq> None
   \<and> res_map_info (poll_cycle (example_env\<lparr>env_nodes_payload := JNull\<rparr>)
        (daemon_init example_cfg) Map.empty) ''POLLINFO'' = None"
  by code_simp

text \<open>
  Claim C3, at a first topology fetch. The seed resolves to \<open>10.1.1.1\<close>, which is not in
  the node list it returns. The bundle's node list is the returned list, without the
  seed, and its links are keyed by \<open>None\<close> (the daemon's \<open>localnode_ip\<close>, never set),
  not by the seed's address.
\<close>

theorem fetch_topology_seed_missing:
  "nodelistNode_ip (snd (fetch_topology example_payload example_link_map
      (daemon_init example_cfg))) = JStr ''10.1.1.1''
   \<and> any_ip_is (JStr ''10.1.1.1'')
        [JDict [(''name'', JStr ''N2''), (''ip'', JStr ''10.1.1.2''),
                (''lat'', JNum 40), (''lon'', JNum (- 104))],
         JDict [(''name'', JStr ''N3''), (''ip'', JStr ''10.1.1.3''),
                (''lat'', JNum 41), (''lon'', JNum (- 104))]] = Inr False
   \<and> fst (fetch_topology example_payload example_link_map (daemon_init example_cfg)) =
       Inr (Some \<lparr>topo_nodes = JList
                     [JDict [(''name'', JStr ''N2''), (''ip'', JStr ''10.1.1.2''),
                             (''lat'', JNum 40), (''lon'', JNum (- 104))],
                      JDict [(''name'', JStr ''N3''), (''ip'', JStr ''10.1.1.3''),
                             (''lat'', JNum 41), (''lon'', JNum (- 104))]],
                  topo_links = [(JNull, example_link_map)]\<rparr>)"
  by code_simp

text \<open>
  In general: whenever \<open>_fetch_topology\<close> returns a bundle, its node list is the list of
  the reply, with nothing appended, and its links are empty or keyed by the
  \<open>localnode_ip\<close> the daemon had before the call.
\<close>

lemma fetch_topology_never_appends:
  assumes "fetch_topology nodes_payload link_map d = (Inr (Some t), d')"
  shows "topo_nodes t = payload_nodes nodes_payload
       \<and> (topo_links t = [] \<or> topo_links t = [(localnode_ip d, link_map)])"
  using assms
  by (auto simp: fetch_topology_def Let_def split: sum.splits if_splits)

section \<open>Properties of the persistence adapter and the emitter\<close>

lemma py_round_error: "\<bar>py_round x n - x\<bar> \<le> 1 / (2 * 10 ^ n)"
proof -
  define y where "y = x * 10 ^ n"
  define f where "f = \<lfloor>y\<rfloor>"
  define r where "r = y - of_int f"
  define k where "k = (if r < 1 / 2 then f else if 1 / 2 < r then f + 1
                       else if even f then f else f + 1)"
  have r: "0 \<le> r" "r < 1" unfolding r_def f_def by linarith+
  have pr: "py_round x n = of_int k / 10 ^ n"
    by (simp add: py_round_def Let_def y_def f_def r_def k_def)
  have "\<bar>real_of_int k - y\<bar> \<le> 1 / 2"
    using r unfolding k_def r_def by (auto split: if_splits)
  then have "\<bar>real_of_int k - y\<bar> / 10 ^ n \<le> (1 / 2) / 10 ^ n"
    by (intro divide_right_mono) simp_all
  moreover have "\<bar>real_of_int k - y\<bar> / 10 ^ n = \<bar>py_round x n - x\<bar>"
    unfolding pr y_def by (simp add: field_simps abs_divide flip: abs_mult)
  ultimately show ?thesis by simp
qed

lemma py_round_digits: "\<exists>k::int. py_round x n = of_int k / 10 ^ n"
  by (auto simp: py_round_def Let_def)

lemma place_all_filter:
  assumes "place_all rows devs = Inr devs'"
  shows "devs' b = devs b @ filter (\<lambda>r. categorize r = Inr (Some b)) rows"
  using assms
proof (induction rows arbitrary: devs)
  case Nil
  then show ?case by simp
next
  case (Cons node rest)
  from Cons.prems obtain d1 where p: "place_node node devs = Inr d1"
    and r: "place_all rest d1 = Inr devs'"
    by (auto split: sum.splits)
  from p have "d1 b = devs b @ filter (\<lambda>r. categorize r = Inr (Some b)) [node]"
    by (auto simp: place_node_def split: if_splits sum.splits option.splits)
  with Cons.IH [OF r] show ?case by simp
qed

lemma all_devices_of_filter:
  assumes "all_devices_of rows = Inr devs"
  shows "devs b = filter (\<lambda>r. categorize r = Inr (Some b)) rows"
  using place_all_filter [OF assms [unfolded all_devices_of_def]] by simp

lemma count_list_filter_distinct:
  assumes "distinct xs"
  shows "count_list (filter P xs) x = (if x \<in> set xs \<and> P x then 1 else 0)"
  using assms by (induction xs) auto

lemma distinct_rows: "distinct (map row_wlan_ip rows) \<Longrightarrow> distinct rows"
  by (rule distinct_map [THEN iffD1, THEN conjunct1])

text \<open>
  Claim C5. For every node record, \<open>upsert_node\<close> writes the row with \<open>lat\<close> and
  \<open>lon\<close> rounded to 7 fractional digits (a multiple of \<open>10\<^sup>-\<^sup>7\<close> within half a unit
  of the value); a rounded value outside \<open>[-90, 90]\<close>, respectively \<open>[-180, 180]\<close>, adds
  a warning to the log and nothing else: the row is written all the same, with that value.
\<close>

theorem upsert_node_coordinates:
  "(\<exists>row. up_table (upsert_node nd now tbl) (ni_wlan_ip nd) = Some row
         \<and> row_lat row = map_option (\<lambda>v. py_round v 7) (ni_lat nd)
         \<and> row_lon row = map_option (\<lambda>v. py_round v 7) (ni_lon nd))
   \<and> (\<exists>k::int. py_round x 7 = of_int k / 10 ^ 7)
   \<and> \<bar>py_round x 7 - x\<bar> \<le> 1 / (2 * 10 ^ 7)
   \<and> up_logs (upsert_node nd now tbl) =
       (case ni_lat nd of
          None \<Rightarrow> []
        | Some la \<Rightarrow> if py_round la 7 < - 90 \<or> 90 < py_round la 7
                     then [InvalidLat (py_round la 7)] else [])
       @ (case ni_lon nd of
            None \<Rightarrow> []
          | Some lo \<Rightarrow> if py_round lo 7 < - 180 \<or> 180 < py_round lo 7
                       then [InvalidLon (py_round lo 7)] else [])"
proof (intro conjI)
  show "\<exists>row. up_table (upsert_node nd now tbl) (ni_wlan_ip nd) = Some row
         \<and> row_lat row = map_option (\<lambda>v. py_round v 7) (ni_lat nd)
         \<and> row_lon row = map_option (\<lambda>v. py_round v 7) (ni_lon nd)"
    by (simp add: upsert_node_def Let_def)
  show "\<exists>k::int. py_round x 7 = of_int k / 10 ^ 7" by (rule py_round_digits)
  show "\<bar>py_round x 7 - x\<bar> \<le> 1 / (2 * 10 ^ 7)" by (rule py_round_error)
  show "up_logs (upsert_node nd now tbl) =
       (case ni_lat nd of
          None \<Rightarrow> []
        | Some la \<Rightarrow> if py_round la 7 < - 90 \<or> 90 < py_round la 7
                     then [InvalidLat (py_round la 7)] else [])
       @ (case ni_lon nd of
            None \<Rightarrow> []
          | Some lo \<Rightarrow> if py_round lo 7 < - 180 \<or> 180 < py_round lo 7
                       then [InvalidLon (py_round lo 7)] else [])"
    by (simp add: upsert_node_def Let_def split: option.splits)
qed

lemma py_round_example: "py_round (9512345678 / 100000000) 7 = 951234568 / 10000000"
  "py_round (- 104) 7 = - 104"
  by (simp_all add: py_round_def Let_def)

text \<open>
  The theorem at a latitude of 95.12345678: the row is written with 95.1234568, and the
  log has the warning.
\<close>

theorem upsert_node_coordinates_witness:
  "(\<exists>row. up_table (upsert_node example_node 1000 Map.empty) ''10.1.1.2'' = Some row
         \<and> row_lat row = Some (951234568 / 10000000) \<and> row_lon row = Some (- 104))
   \<and> up_logs (upsert_node example_node 1000 Map.empty) = [InvalidLat (951234568 / 10000000)]"
proof -
  have la: "ni_lat example_node = Some (9512345678 / 100000000)"
    and lo: "ni_lon example_node = Some (- 104)"
    and ip: "ni_wlan_ip example_node = ''10.1.1.2''"
    by (simp_all add: example_node_def)
  note t = upsert_node_coordinates [of example_node 1000 Map.empty 0,
      unfolded la lo ip option.map option.case py_round_example]
  then show ?thesis by simp
qed

text \<open>
  Claim C10. In the \<open>allDevices\<close> of an emitted map artifact, built from the rows of the
  node table (whose key \<open>wlan_ip\<close> is unique), every node record is placed at most once
  over the six buckets together, and a node whose latitude and longitude are both zero is
  in no bucket.
\<close>

theorem buckets_disjoint:
  assumes "all_devices_of all_nodes = Inr all_devices"
    and "distinct (map row_wlan_ip all_nodes)"
  shows "sum_list (map (\<lambda>b. count_list (all_devices b) node) all_buckets) \<le> 1
       \<and> (row_lat node = Some 0 \<and> row_lon node = Some 0 \<longrightarrow>
            (\<forall>b. node \<notin> set (all_devices b)))"
proof -
  note f = all_devices_of_filter [OF assms(1)]
  from assms(2) have d: "distinct all_nodes" by (rule distinct_rows)
  have c: "count_list (all_devices b) node =
      (if node \<in> set all_nodes \<and> categorize node = Inr (Some b) then 1 else 0)" for b
    unfolding f by (rule count_list_filter_distinct [OF d])
  have 1: "sum_list (map (\<lambda>b. count_list (all_devices b) node) all_buckets) \<le> 1"
    unfolding c all_buckets_def by simp
  have 2: "node \<notin> set (all_devices b)" if "row_lat node = Some 0 \<and> row_lon node = Some 0" for b
    unfolding f using that by (simp add: categorize_def)
  from 1 2 show ?thesis by blast
qed

text \<open>
  The theorem at four rows: one on channel 149, one without a location, a supernode on
  channel 149 and one on channel 6.
\<close>

theorem buckets_disjoint_witness:
  "all_devices_of example_rows = Inr
     ((\<lambda>b. [])(B5ghz := [example_row ''10.1.1.2'' 40 (- 104) ''149'' ''false''],
               Supernode := [example_row ''10.1.1.4'' 41 (- 104) ''149'' ''true''],
               B2ghz := [example_row ''10.1.1.5'' 41 (- 105) ''6'' ''false'']))
   \<and> distinct (map row_wlan_ip example_rows)
   \<and> row_lat (example_row ''10.1.1.3'' 0 0 ''149'' ''false'') = Some 0
   \<and> row_lon (example_row ''10.1.1.3'' 0 0 ''149'' ''false'') = Some 0
   \<and> (\<forall>b. example_row ''10.1.1.3'' 0 0 ''149'' ''false''
            \<notin> set (((\<lambda>b. [])(B5ghz := [example_row ''10.1.1.2'' 40 (- 104) ''149'' ''false''],
               Supernode := [example_row ''10.1.1.4'' 41 (- 104) ''149'' ''true''],
               B2ghz := [example_row ''10.1.1.5'' 41 (- 105) ''6'' ''false''])) b))"
proof -
  let ?devs = "(\<lambda>b. [])(B5ghz := [example_row ''10.1.1.2'' 40 (- 104) ''149'' ''false''],
               Supernode := [example_row ''10.1.1.4'' 41 (- 104) ''149'' ''true''],
               B2ghz := [example_row ''10.1.1.5'' 41 (- 105) ''6'' ''false''])"
  have i: "py_int ''149'' = Some 149" "py_int ''6'' = Some 6" by code_simp+
  have g: "py_isdigit ''149''" "py_isdigit ''6''" by code_simp+
  have c: "categorize (example_row ''10.1.1.2'' 40 (- 104) ''149'' ''false'') = Inr (Some B5ghz)"
    "categorize (example_row ''10.1.1.3'' 0 0 ''149'' ''false'') = Inr None"
    "categorize (example_row ''10.1.1.4'' 41 (- 104) ''149'' ''true'') = Inr (Some Supernode)"
    "categorize (example_row ''10.1.1.5'' 41 (- 105) ''6'' ''false'') = Inr (Some B2ghz)"
    by (simp_all add: categorize_def example_row_def i g band_of_channel_def)
  have r: "row_response_time_ms (example_row ip la lo ch sn) = Some 12" for ip la lo ch sn
    by (simp add: example_row_def)
  have h1: "all_devices_of example_rows = Inr ?devs"
    by (simp add: all_devices_of_def example_rows_def place_node_def c r fun_upd_twist)
  have h2: "distinct (map row_wlan_ip example_rows)"
    by (simp add: example_rows_def example_row_def)
  from buckets_disjoint [OF h1 h2, of "example_row ''10.1.1.3'' 0 0 ''149'' ''false''"] h1 h2
  show ?thesis by (simp add: example_row_def)
qed

section \<open>Properties of the distance and bearing computation\<close>

lemma arctan_le_self_nonneg:
  assumes "0 \<le> (u::real)"
  shows "arctan u \<le> u"
proof -
  have "0 - arctan 0 \<le> u - arctan u"
  proof (rule DERIV_nonneg_imp_nondecreasing [OF assms])
    fix x :: real
    have "((\<lambda>x. x - arctan x) has_real_derivative (1 - inverse (1 + x\<^sup>2))) (at x)"
      by (auto intro!: derivative_eq_intros)
    moreover have "0 \<le> 1 - inverse (1 + x\<^sup>2)"
      by (simp add: inverse_le_1_iff)
    ultimately show "\<exists>y. ((\<lambda>x. x - arctan x) has_real_derivative y) (at x) \<and> 0 \<le> y"
      by blast
  qed
  then show ?thesis by simp
qed

lemma self_le_arctan_nonpos:
  assumes "(t::real) \<le> 0"
  shows "t \<le> arctan t"
  using arctan_le_self_nonneg [of "- t"] assms by (simp add: arctan_minus)

lemma py_round_upper_half:
  assumes "of_int k + 1 / 2 < x * 10 ^ n" and "x * 10 ^ n < of_int k + 1"
  shows "py_round x n = (of_int k + 1) / 10 ^ n"
proof -
  from assms have f: "\<lfloor>x * 10 ^ n\<rfloor> = k" by linarith
  with assms show ?thesis by (simp add: py_round_def Let_def)
qed

text \<open>
  Claim C8, from \<open>(30, -100)\<close> to \<open>(60, -100.01)\<close>, a hundredth of a degree west of due
  north. No exception is raised, the bearing before rounding is in \<open>[359.99, 360)\<close>, and
  the bearing returned is \<open>round(bearing, 1) = 360.0\<close>, outside \<open>[0, 360)\<close>.
\<close>

theorem bearing_rounds_to_360:
  "\<exists>r. calculate_distance_bearing 30 (- 100) 60 (- 10001 / 100) = Inr r \<and> bearing r = 360"
proof -
  define d :: real where "d = pi / 18000"
  have d0: "0 < d" and d1: "d < 1 / 4000" and dpi: "d < pi"
    using pi_gt_zero pi_less_4 unfolding d_def by simp_all
  have r1: "radians 30 = pi / 6" and r2: "radians 60 = pi / 3"
    and r3: "radians (60 - 30) = pi / 6" and r4: "radians (- 10001 / 100 - - 100) = - d"
    by (simp_all add: radians_def d_def)
  have sd: "0 < sin d" "sin d \<le> d"
    using sin_gt_zero [OF d0 dpi] sin_x_le_x [of d] d0 by simp_all
  have cd: "cos d \<le> 1" by simp
  define a where "a = (sin (pi / 6 / 2))\<^sup>2 + cos (pi / 6) * cos (pi / 3) * (sin (- d / 2))\<^sup>2"
  have s3: "0 \<le> sqrt 3" "sqrt 3 \<le> 2"
    by (simp_all add: real_le_lsqrt)
  have a0: "0 \<le> a"
    unfolding a_def cos_30 cos_60 using s3 by simp
  have "(sin (pi / 6 / 2))\<^sup>2 \<le> (pi / 6 / 2)\<^sup>2"
    using abs_sin_x_le_abs_x [of "pi / 6 / 2"] by (simp add: abs_le_square_iff [symmetric])
  also have "\<dots> \<le> (1 / 3)\<^sup>2"
    using pi_gt_zero pi_less_4 by (intro power_mono) simp_all
  finally have t1: "(sin (pi / 6 / 2))\<^sup>2 \<le> 1 / 9" by (simp add: power2_eq_square)
  have "(sin (- d / 2))\<^sup>2 \<le> 1"
    using abs_sin_le_one [of "- d / 2"] by (simp add: abs_square_le_1)
  then have t2: "sqrt 3 / 2 * (1 / 2) * (sin (- d / 2))\<^sup>2 \<le> 1 * (1 / 2) * 1"
    using s3 by (intro mult_mono) simp_all
  have a1: "a \<le> 1"
    unfolding a_def cos_30 cos_60 using t1 t2 by simp
  define y where "y = sin (- d) * cos (pi / 3)"
  define x where "x = cos (pi / 6) * sin (pi / 3) - sin (pi / 6) * cos (pi / 3) * cos (- d)"
  have y: "y = - sin d / 2" by (simp add: y_def cos_60)
  have x: "x = 3 / 4 - cos d / 4" by (simp add: x_def cos_30 sin_60 sin_30 cos_60)
  have xh: "1 / 2 \<le> x" using cd unfolding x by linarith
  then have x0: "0 < x" by simp
  have y0: "y < 0" using sd unfolding y by linarith
  have t0: "y / x < 0" using y0 x0 by (simp add: divide_neg_pos)
  have "- d * x \<le> - d * (1 / 2)"
    using xh d0 by (intro mult_left_mono_neg) simp_all
  also have "\<dots> \<le> y" using sd unfolding y by linarith
  finally have tl: "- d \<le> y / x" using x0 by (simp add: pos_le_divide_eq)
  have at: "atan2 y x = arctan (y / x)" using x0 by (simp add: atan2_def)
  have al: "- d \<le> arctan (y / x)"
    using self_le_arctan_nonpos [of "y / x"] t0 tl by simp
  have au: "arctan (y / x) < 0" using t0 by simp
  define v where "v = degrees (atan2 y x)"
  have "- d * (180 / pi) \<le> arctan (y / x) * (180 / pi)"
    using al by (intro mult_right_mono) simp_all
  then have vl: "- (1 / 100) \<le> v"
    unfolding v_def degrees_def at d_def by simp
  have "arctan (y / x) * (180 / pi) < 0"
    using au by (intro mult_neg_pos) simp_all
  then have vu: "v < 0" unfolding v_def degrees_def at by simp
  have fl: "\<lfloor>(v + 360) / 360\<rfloor> = 0" using vl vu by (simp add: floor_eq_iff)
  have raw: "py_fmod (v + 360) 360 = v + 360" by (simp add: py_fmod_def fl)
  have rnd: "py_round (v + 360) 1 = 360"
    using py_round_upper_half [of 3599 "v + 360" 1] vl vu by simp
  let ?r = "\<lparr>distanceKM = py_round (6371 * (2 * atan2 (sqrt a) (sqrt (1 - a)))) 2,
           distanceMiles = py_round (6371 * (2 * atan2 (sqrt a) (sqrt (1 - a)))
                                     * (621371 / 1000000)) 2,
           bearing = py_round (py_fmod (v + 360) 360) 1\<rparr>"
  have e: "calculate_distance_bearing 30 (- 100) 60 (- 10001 / 100) = Inr ?r"
    unfolding calculate_distance_bearing_def r1 r2 r3 r4 Let_def
      a_def [symmetric] y_def [symmetric] x_def [symmetric] v_def [symmetric]
    using a0 a1 by simp
  have b: "bearing ?r = 360"
    by (simp only: dist_bearing.simps raw rnd)
  from e b show ?thesis by blast
qed

text \<open>
  What does hold for every pair of coordinate pairs: the distance is non-negative, the
  bearing is in \<open>[0, 360]\<close> with the upper end included, and identical endpoints give
  distance and bearing zero.
\<close>

lemma py_round_le_grid:
  assumes "x \<le> of_int k / 10 ^ n"
  shows "py_round x n \<le> of_int k / 10 ^ n"
proof -
  from assms have "x * 10 ^ n \<le> of_int k" by (simp add: pos_le_divide_eq)
  then have "(if x * 10 ^ n - of_int \<lfloor>x * 10 ^ n\<rfloor> < 1 / 2 then \<lfloor>x * 10 ^ n\<rfloor>
              else if 1 / 2 < x * 10 ^ n - of_int \<lfloor>x * 10 ^ n\<rfloor> then \<lfloor>x * 10 ^ n\<rfloor> + 1
              else if even \<lfloor>x * 10 ^ n\<rfloor> then \<lfloor>x * 10 ^ n\<rfloor> else \<lfloor>x * 10 ^ n\<rfloor> + 1) \<le> k"
    by (auto split: if_splits) linarith+
  then show ?thesis
    by (simp add: py_round_def Let_def divide_right_mono)
qed

lemma py_round_nonneg:
  assumes "0 \<le> x"
  shows "0 \<le> py_round x n"
proof -
  from assms have "0 \<le> \<lfloor>x * 10 ^ n\<rfloor>" by simp
  then show ?thesis by (simp add: py_round_def Let_def)
qed

lemma atan2_nonneg: "0 \<le> y \<Longrightarrow> 0 \<le> x \<Longrightarrow> 0 \<le> atan2 y x"
  by (simp add: atan2_def)

lemma py_fmod_range: "0 \<le> py_fmod x 360 \<and> py_fmod x 360 < 360"
proof -
  have "of_int \<lfloor>x / 360\<rfloor> \<le> x / 360" "x / 360 < of_int \<lfloor>x / 360\<rfloor> + 1" by linarith+
  then show ?thesis by (simp add: py_fmod_def field_simps)
qed

lemma distance_bearing_bounds:
  assumes "calculate_distance_bearing lat1 lon1 lat2 lon2 = Inr r"
  shows "0 \<le> distanceKM r \<and> 0 \<le> distanceMiles r \<and> 0 \<le> bearing r \<and> bearing r \<le> 360"
proof -
  define a where "a = (sin (radians (lat2 - lat1) / 2))\<^sup>2
      + cos (radians lat1) * cos (radians lat2) * (sin (radians (lon2 - lon1) / 2))\<^sup>2"
  define raw where "raw = py_fmod (degrees (atan2 (sin (radians (lon2 - lon1)) * cos (radians lat2))
      (cos (radians lat1) * sin (radians lat2)
        - sin (radians lat1) * cos (radians lat2) * cos (radians (lon2 - lon1)))) + 360) 360"
  from assms have a: "0 \<le> a" "a \<le> 1"
    and r: "r = \<lparr>distanceKM = py_round (6371 * (2 * atan2 (sqrt a) (sqrt (1 - a)))) 2,
              distanceMiles = py_round (6371 * (2 * atan2 (sqrt a) (sqrt (1 - a)))
                                        * (621371 / 1000000)) 2,
              bearing = py_round raw 1\<rparr>"
    unfolding calculate_distance_bearing_def Let_def a_def [symmetric] raw_def [symmetric]
    by (auto split: if_splits)
  from a have c: "0 \<le> atan2 (sqrt a) (sqrt (1 - a))" by (intro atan2_nonneg) simp_all
  have "raw \<le> of_int 3600 / 10 ^ 1" using py_fmod_range [of _] unfolding raw_def
    by (simp add: less_imp_le)
  from py_round_le_grid [OF this] have "py_round raw 1 \<le> 360" by simp
  moreover have "0 \<le> py_round raw 1"
    using py_fmod_range unfolding raw_def by (intro py_round_nonneg) simp
  moreover have "0 \<le> py_round (6371 * (2 * atan2 (sqrt a) (sqrt (1 - a)))) 2"
    "0 \<le> py_round (6371 * (2 * atan2 (sqrt a) (sqrt (1 - a))) * (621371 / 1000000)) 2"
    using c by (intro py_round_nonneg; simp)+
  ultimately show ?thesis unfolding r by simp
qed

lemma identical_endpoints:
  "calculate_distance_bearing lat lon lat lon =
     Inr \<lparr>distanceKM = 0, distanceMiles = 0, bearing = 0\<rparr>"
  by (simp add: calculate_distance_bearing_def radians_def atan2_def py_fmod_def py_round_def
      degrees_def Let_def)

end
